theory Spec2Isabelle
  imports Complex_Main "HOL-Library.Word"
begin

unbundle bit_operations_syntax

section \<open>Common types\<close>

text \<open>
  A \<^verbatim>\<open>Uint8Array\<close> is a list of bytes. JavaScript \<^verbatim>\<open>bigint\<close> values are
  unbounded integers (\<^typ>\<open>int\<close>); lengths and positions are natural numbers.
\<close>

type_synonym byte = "8 word"
type_synonym bytes = "byte list"

text \<open>
  Every \<^verbatim>\<open>throw new Error(...)\<close> of the library is one constructor; the
  constructor names follow the messages of the source.
\<close>

datatype error =
    NumberIsNegative
  | PrecisionLoss
  | IntegerOutOfRange
  | NegativeNumber
  | U128Overflow
  | PayloadTooLarge nat
  | BufferTooShort nat nat
  | PrematureEOF
  | InvalidVarint
  | Bls12_381NotAllowed
  | Ed25519Length
  | Secp256k1Length
  | AssertionViolated string
  | WithdrawNotPositive
  | InvalidFillMode
  | InvalidBytesLike
  | BigIntSyntaxError
  | EncodeOutOfRange
  | MalformedMessage
  | ServerError string nat
  | UnexpectedReceiptKind "string option"
  | External string

section \<open>utils.ts: splitting a 128-bit integer\<close>

definition U64_MAX :: int where
  "U64_MAX = push_bit 64 1 - 1"

definition U128_MAX :: int where
  "U128_MAX = push_bit 128 1 - 1"

record U128 =
  lo :: int
  hi :: int

definition bigIntToProtoU128 :: "int \<Rightarrow> error + U128" where
  "bigIntToProtoU128 v =
     (if v < 0 then Inl NegativeNumber
      else if v > U128_MAX then Inl U128Overflow
      else Inr \<lparr>lo = v AND U64_MAX, hi = drop_bit 64 v AND U64_MAX\<rparr>)"

section \<open>utils.ts: scaled integers\<close>

text \<open>
  A finite number of the decimal library is a coefficient (the significant digits of
  the number, with its sign) and a power of ten: \<open>Decimal c e\<close> stands for
  \<open>c * 10^e\<close>. The text \<^verbatim>\<open>"123.45"\<close> is \<open>Decimal 12345 (-2)\<close>, and \<^verbatim>\<open>"1000"\<close> is
  \<open>Decimal 1 3\<close>: the library keeps no trailing zeros, so the digits of the
  coefficient are the significant digits of the value.
\<close>

datatype decimal = Decimal (coef: int) (expo: int)

definition dec_value :: "decimal \<Rightarrow> rat" where
  "dec_value x = of_int (coef x) * 10 powi (expo x)"

definition ZERO_DECIMAL :: decimal where
  "ZERO_DECIMAL = Decimal 0 0"

text \<open>
  A value of the library is a finite number or one of the special values
  \<^verbatim>\<open>Infinity\<close>, \<^verbatim>\<open>-Infinity\<close> and \<^verbatim>\<open>NaN\<close>. The sign of a zero is not kept:
  the conversion asks for the sign of values that are not zero only.
\<close>

datatype dvalue = Fin decimal | PosInf | NegInf | NaN

text \<open>The number of decimal digits of a natural number (one digit for 0).\<close>

function ndigits :: "nat \<Rightarrow> nat" where
  "ndigits n = (if n < 10 then 1 else Suc (ndigits (n div 10)))"
  by pat_completeness auto
termination
  by (relation "measure id") auto

declare ndigits.simps [simp del]

text \<open>
  The exponent of the leading digit of a number that is not zero: \<open>Decimal c e\<close>
  is \<open>d.ddd * 10^(lead_exp)\<close>. The library's exponent limits are its defaults
  \<^verbatim>\<open>maxE = 9e15\<close> and \<^verbatim>\<open>minE = -9e15\<close>, which \<^verbatim>\<open>Decimal.clone\<close> keeps. Whenever
  the constructor or an arithmetic operation makes a finite number, a leading
  exponent above \<open>maxE\<close> turns it into an infinity and one below \<open>minE\<close> into zero.
\<close>

definition lead_exp :: "decimal \<Rightarrow> int" where
  "lead_exp x = expo x + int (ndigits (nat \<bar>coef x\<bar>)) - 1"

definition maxE :: int where
  "maxE = 9000000000000000"

definition minE :: int where
  "minE = - 9000000000000000"

definition check_range :: "decimal \<Rightarrow> dvalue" where
  "check_range x =
     (if coef x = 0 then Fin (Decimal 0 0)
      else if lead_exp x > maxE then (if coef x < 0 then NegInf else PosInf)
      else if lead_exp x < minE then Fin (Decimal 0 0)
      else Fin x)"

text \<open>
  \<^verbatim>\<open>new Dec(x)\<close>, on the value that the argument denotes: every digit of a finite
  argument is kept (only arithmetic rounds to the configured precision), and the
  exponent limits apply.
\<close>

definition new_Dec :: "dvalue \<Rightarrow> dvalue" where
  "new_Dec v = (case v of Fin x \<Rightarrow> check_range x | _ \<Rightarrow> v)"

definition isZero :: "dvalue \<Rightarrow> bool" where
  "isZero v = (case v of Fin x \<Rightarrow> coef x = 0 | _ \<Rightarrow> False)"

definition isNeg :: "dvalue \<Rightarrow> bool" where
  "isNeg v = (case v of Fin x \<Rightarrow> coef x < 0 | NegInf \<Rightarrow> True | _ \<Rightarrow> False)"

text \<open>
  The library rounds the result of an arithmetic operation to \<open>sd\<close> significant
  digits, in its default rounding mode (half up: to the nearest, ties away from
  zero), and then applies the exponent limits.
\<close>

definition round_half_up :: "nat \<Rightarrow> decimal \<Rightarrow> decimal" where
  "round_half_up sd x =
     (let n = ndigits (nat \<bar>coef x\<bar>) in
      if n \<le> sd then x
      else
        let k = n - sd;
            q = (\<bar>coef x\<bar> + 5 * 10 ^ (k - 1)) div 10 ^ k
        in Decimal (sgn (coef x) * q) (expo x + int k))"

definition finalise :: "nat \<Rightarrow> decimal \<Rightarrow> dvalue" where
  "finalise sd x = check_range (round_half_up sd x)"

text \<open>
  \<^verbatim>\<open>mul\<close>: the product of two finite numbers is rounded to the precision; a
  product with \<^verbatim>\<open>NaN\<close>, or of zero and an infinity, is \<^verbatim>\<open>NaN\<close>; any other product
  with an infinity is an infinity with the sign of the product.
\<close>

definition mul :: "nat \<Rightarrow> dvalue \<Rightarrow> dvalue \<Rightarrow> dvalue" where
  "mul prec a b =
     (case (a, b) of
        (Fin x, Fin y) \<Rightarrow>
          if coef x = 0 \<or> coef y = 0 then Fin (Decimal 0 0)
          else finalise prec (Decimal (coef x * coef y) (expo x + expo y))
      | _ \<Rightarrow>
          if a = NaN \<or> b = NaN \<or> isZero a \<or> isZero b then NaN
          else if isNeg a \<noteq> isNeg b then NegInf
          else PosInf)"

text \<open>
  \<^verbatim>\<open>Ten.pow(decimals)\<close> for a count of decimals: a power of ten has one significant
  digit, so no precision rounds it; the exponent limits apply.
\<close>

definition Ten_pow :: "nat \<Rightarrow> dvalue" where
  "Ten_pow decimals = check_range (Decimal 1 (int decimals))"

text \<open>
  \<^verbatim>\<open>truncated()\<close> drops the fractional part of a finite number (rounding towards
  zero) and leaves the special values as they are.
\<close>

definition truncated :: "dvalue \<Rightarrow> dvalue" where
  "truncated v =
     (case v of
        Fin x \<Rightarrow>
          if 0 \<le> expo x then Fin x
          else Fin (Decimal (sgn (coef x) * (\<bar>coef x\<bar> div 10 ^ nat (- expo x))) 0)
      | _ \<Rightarrow> v)"

text \<open>The integer an integral decimal stands for (used on results of \<open>truncated\<close>).\<close>

definition integral_value :: "decimal \<Rightarrow> int" where
  "integral_value x = coef x * 10 ^ nat (expo x)"

definition greaterThan_int :: "dvalue \<Rightarrow> int \<Rightarrow> bool" where
  "greaterThan_int v m =
     (case v of Fin x \<Rightarrow> integral_value x > m | PosInf \<Rightarrow> True | _ \<Rightarrow> False)"

text \<open>
  \<^verbatim>\<open>BigInt(scaled.toString())\<close> on a truncated value: the library prints a number
  whose leading exponent reaches \<^verbatim>\<open>toExpPos\<close> in exponential notation and the
  special values by name, and \<^verbatim>\<open>BigInt\<close> throws a syntax error on such a text.
\<close>

definition toBigInt :: "nat \<Rightarrow> dvalue \<Rightarrow> error + int" where
  "toBigInt toExpPos v =
     (case v of
        Fin x \<Rightarrow>
          if coef x \<noteq> 0 \<and> int toExpPos \<le> lead_exp x then Inl BigIntSyntaxError
          else Inr (integral_value x)
      | _ \<Rightarrow> Inl BigIntSyntaxError)"

record ScaleParams =
  precision :: nat
  exponent :: nat
  bits :: nat

text \<open>
  \<^verbatim>\<open>makeToScaledBigUint\<close>: the function it returns, on the value that the argument
  \<open>x\<close> denotes.
\<close>

definition makeToScaledBigUint :: "ScaleParams \<Rightarrow> dvalue \<Rightarrow> nat \<Rightarrow> error + int" where
  "makeToScaledBigUint params x decimals =
     (let Max = push_bit (bits params) 1 - 1;
          dec = new_Dec x
      in
      if isZero dec then Inr 0
      else if isNeg dec then Inl NumberIsNegative
      else
        let scaled = truncated (mul (precision params) (Ten_pow decimals) dec) in
        if isZero scaled then Inl PrecisionLoss
        else if greaterThan_int scaled Max then Inl IntegerOutOfRange
        else toBigInt (exponent params) scaled)"

definition toScaledU64 :: "dvalue \<Rightarrow> nat \<Rightarrow> error + int" where
  "toScaledU64 = makeToScaledBigUint \<lparr>precision = 20, exponent = 28, bits = 64\<rparr>"

definition toScaledU128 :: "dvalue \<Rightarrow> nat \<Rightarrow> error + int" where
  "toScaledU128 = makeToScaledBigUint \<lparr>precision = 40, exponent = 56, bits = 128\<rparr>"

text \<open>
  The specification's wording of the conversion, for comparison with the code:
  \<open>round_down(x * 10^d)\<close> on exact values.
\<close>

definition spec_round_down :: "decimal \<Rightarrow> nat \<Rightarrow> int" where
  "spec_round_down x d = \<lfloor>dec_value x * 10 ^ d\<rfloor>"

text \<open>A number that is not zero and lies below the exponent range of the library.\<close>

definition underflows :: "decimal \<Rightarrow> bool" where
  "underflows x = (coef x \<noteq> 0 \<and> lead_exp x < minE)"

section \<open>utils.ts: length-delimited framing\<close>

definition MAX_PAYLOAD_SIZE :: nat where
  "MAX_PAYLOAD_SIZE = 100 * 1024"

text \<open>
  \<^verbatim>\<open>new BinaryWriter().uint32(value).finish()\<close> of the wire library: a base-128
  varint, least significant group first. (Its range assertion holds for every length
  up to the payload cap.)
\<close>

function uint32_write :: "nat \<Rightarrow> bytes" where
  "uint32_write v =
     (if v > 0x7f then word_of_nat ((v AND 0x7f) OR 0x80) # uint32_write (drop_bit 7 v)
      else [word_of_nat v])"
  by pat_completeness auto
termination
  by (relation "measure id") (auto simp: drop_bit_eq_div)

declare uint32_write.simps [simp del]

text \<open>
  \<^verbatim>\<open>BinaryReader.uint32()\<close> of the wire library, from byte number \<open>k\<close> of the varint
  on: bytes 0 to 3 give seven bits each, byte 4 gives four bits, bytes 5 to 9 are
  skipped, a tenth byte with the continuation bit is an invalid varint, and reading
  past the end of the buffer is a premature end of file. The result is the value and
  the reader's position.
\<close>

fun varint32read :: "nat \<Rightarrow> bytes \<Rightarrow> error + nat \<times> nat" where
  "varint32read k [] = Inl PrematureEOF"
| "varint32read k (b # bs) =
     (let part =
        (if k < 4 then push_bit (7 * k) (unat (b AND 0x7f))
         else if k = 4 then push_bit 28 (unat (b AND 0x0f))
         else 0)
      in
      if b AND 0x80 = 0 then Inr (part, Suc k)
      else if 9 \<le> k then Inl InvalidVarint
      else
        (case varint32read (Suc k) bs of
           Inl e \<Rightarrow> Inl e
         | Inr (rest, pos) \<Rightarrow> Inr (part OR rest, pos)))"

definition encodeLengthDelimited :: "'m \<Rightarrow> ('m \<Rightarrow> error + bytes) \<Rightarrow> error + bytes" where
  "encodeLengthDelimited message coder_encode =
     (case coder_encode message of
        Inl e \<Rightarrow> Inl e
      | Inr encoded \<Rightarrow>
          if length encoded > MAX_PAYLOAD_SIZE then Inl (PayloadTooLarge (length encoded))
          else Inr (uint32_write (length encoded) @ encoded))"

definition decodeLengthDelimited :: "bytes \<Rightarrow> (bytes \<Rightarrow> error + 'm) \<Rightarrow> error + 'm" where
  "decodeLengthDelimited bs coder_decode =
     (case varint32read 0 bs of
        Inl e \<Rightarrow> Inl e
      | Inr (msgLength, startsAt) \<Rightarrow>
          if msgLength > MAX_PAYLOAD_SIZE then Inl (PayloadTooLarge msgLength)
          else if startsAt + msgLength > length bs
            then Inl (BufferTooShort msgLength (length bs - startsAt))
          else coder_decode (take msgLength (drop startsAt bs)))"

section \<open>utils.ts: public keys and the session lifetime\<close>

definition SESSION_TTL :: int where
  "SESSION_TTL = 10 * 60 * 1000 * 10000"

datatype KeyType = Ed25519 | Secp256k1 | Bls12_381

definition checkPubKeyLength :: "KeyType \<Rightarrow> nat \<Rightarrow> error + unit" where
  "checkPubKeyLength keyType len =
     (if keyType = Bls12_381 then Inl Bls12_381NotAllowed
      else if len \<noteq> 32 \<and> keyType = Ed25519 then Inl Ed25519Length
      else if len \<noteq> 33 \<and> keyType = Secp256k1 then Inl Secp256k1Length
      else Inr ())"

definition assert :: "bool \<Rightarrow> string \<Rightarrow> error + unit" where
  "assert predicate message = (if \<not> predicate then Inl (AssertionViolated message) else Inr ())"

definition optMap :: "'t option \<Rightarrow> ('t \<Rightarrow> 'u) \<Rightarrow> 'u option" where
  "optMap v mapFn = (case v of Some x \<Rightarrow> Some (mapFn x) | None \<Rightarrow> None)"

section \<open>types.ts: sides and fill modes\<close>

datatype Side = Ask | Bid

text \<open>
  \<^verbatim>\<open>FillMode\<close> is a numeric enumeration: at run time a fill mode is a number, and
  the four members are 0 to 3.
\<close>

type_synonym FillMode = nat

definition Limit :: FillMode where "Limit = 0"
definition PostOnly :: FillMode where "PostOnly = 1"
definition ImmediateOrCancel :: FillMode where "ImmediateOrCancel = 2"
definition FillOrKill :: FillMode where "FillOrKill = 3"

datatype proto_Side = ASK | BID

datatype proto_FillMode = LIMIT | POST_ONLY | IMMEDIATE_OR_CANCEL | FILL_OR_KILL

definition fillModeToProtoFillMode :: "FillMode \<Rightarrow> error + proto_FillMode" where
  "fillModeToProtoFillMode x =
     (if x = Limit then Inr LIMIT
      else if x = PostOnly then Inr POST_ONLY
      else if x = ImmediateOrCancel then Inr IMMEDIATE_OR_CANCEL
      else if x = FillOrKill then Inr FILL_OR_KILL
      else Inl InvalidFillMode)"

section \<open>Actions and receipts\<close>

text \<open>
  The message types of the generated module, with the fields the action functions
  write and read. The schema coder of each message type is a parameter of the framing
  functions, as it is in the source.
\<close>

record PlaceOrder_msg =
  po_sessionId :: int
  po_senderAccountId :: "nat option"
  po_marketId :: nat
  po_side :: proto_Side
  po_fillMode :: proto_FillMode
  po_isReduceOnly :: bool
  po_price :: int
  po_size :: int
  po_quoteSize :: U128
  po_clientOrderId :: "int option"
  po_delegatorAccountId :: "nat option"

record CancelOrderById_msg =
  co_orderId :: int
  co_sessionId :: int
  co_senderAccountId :: "nat option"
  co_delegatorAccountId :: "nat option"

record Transfer_msg =
  tr_sessionId :: int
  tr_fromAccountId :: nat
  tr_toAccountId :: "nat option"
  tr_tokenId :: nat
  tr_amount :: int

record CreateSession_msg =
  cs_userPubkey :: bytes
  cs_blstPubkey :: bytes
  cs_expiryTimestamp :: int

record Withdraw_msg =
  wd_sessionId :: int
  wd_tokenId :: nat
  wd_amount :: int

datatype ActionKind =
    CreateSession CreateSession_msg
  | RevokeSession int
  | Withdraw Withdraw_msg
  | PlaceOrder PlaceOrder_msg
  | CancelOrderById CancelOrderById_msg
  | Transfer Transfer_msg

record Action =
  currentTimestamp :: int
  nonce :: nat
  kind :: ActionKind

text \<open>
  A receipt's \<open>kind\<close> is optional. The cases the action functions inspect are listed;
  every other case of the union is \<open>OtherResult\<close> with its tag.
\<close>

datatype ReceiptKind =
    Err nat
  | CreateSessionResult int
  | PlaceOrderResult "int option"
  | CancelOrderResult int
  | Transferred bool "nat option"
  | OtherResult string

record Receipt =
  receipt_kind :: "ReceiptKind option"

fun case_tag :: "ReceiptKind \<Rightarrow> string" where
  "case_tag (Err c) = ''err''"
| "case_tag (CreateSessionResult sid) = ''createSessionResult''"
| "case_tag (PlaceOrderResult posted) = ''placeOrderResult''"
| "case_tag (CancelOrderResult oid) = ''cancelOrderResult''"
| "case_tag (Transferred created acc) = ''transferred''"
| "case_tag (OtherResult tag) = tag"

text \<open>The generated coders the action functions use: \<^verbatim>\<open>proto.Action\<close>, \<^verbatim>\<open>proto.Receipt\<close>.\<close>

record proto =
  Action_encode :: "Action \<Rightarrow> error + bytes"
  Receipt_decode :: "bytes \<Rightarrow> error + Receipt"

section \<open>actions.ts: signing\<close>

text \<open>
  The signing capabilities are injected functions; a rejected promise is an error
  value. \<^verbatim>\<open>sessionSign\<close> appends the signature to the message.
\<close>

definition sessionSign :: "(bytes \<Rightarrow> error + bytes) \<Rightarrow> bytes \<Rightarrow> error + bytes" where
  "sessionSign signFn message =
     (case signFn message of
        Inl e \<Rightarrow> Inl e
      | Inr signature \<Rightarrow> Inr (message @ signature))"

text \<open>
  The wallet capability returns its signature as a hexadecimal string.
  \<^verbatim>\<open>signature.slice(0, -2)\<close> drops the last two characters, and \<^verbatim>\<open>ethers.getBytes\<close>
  accepts exactly the strings \<^verbatim>\<open>/^0x(?:[0-9a-f][0-9a-f])*$/i\<close>.
\<close>

definition hex_digit :: "char \<Rightarrow> nat option" where
  "hex_digit c =
     (let n = (of_char c :: nat) in
      if 48 \<le> n \<and> n \<le> 57 then Some (n - 48)
      else if 97 \<le> n \<and> n \<le> 102 then Some (n - 87)
      else if 65 \<le> n \<and> n \<le> 70 then Some (n - 55)
      else None)"

fun hex_pairs :: "string \<Rightarrow> bytes option" where
  "hex_pairs [] = Some []"
| "hex_pairs [c] = None"
| "hex_pairs (c # d # cs) =
     (case hex_digit c of
        None \<Rightarrow> None
      | Some h \<Rightarrow>
          (case hex_digit d of
             None \<Rightarrow> None
           | Some l \<Rightarrow>
               (case hex_pairs cs of
                  None \<Rightarrow> None
                | Some bs \<Rightarrow> Some (word_of_nat (16 * h + l) # bs))))"

definition getBytes :: "string \<Rightarrow> error + bytes" where
  "getBytes v =
     (case v of
        z # x # digits \<Rightarrow>
          if z = CHR ''0'' \<and> (x = CHR ''x'' \<or> x = CHR ''X'') then
            (case hex_pairs digits of None \<Rightarrow> Inl InvalidBytesLike | Some bs \<Rightarrow> Inr bs)
          else Inl InvalidBytesLike
      | _ \<Rightarrow> Inl InvalidBytesLike)"

definition slice_0_minus2 :: "string \<Rightarrow> string" where
  "slice_0_minus2 s = take (length s - 2) s"

definition walletSign :: "(bytes \<Rightarrow> error + string) \<Rightarrow> bytes \<Rightarrow> error + bytes" where
  "walletSign walletSignFn message =
     (case walletSignFn message of
        Inl e \<Rightarrow> Inl e
      | Inr signature \<Rightarrow>
          (case getBytes (slice_0_minus2 signature) of
             Inl e \<Rightarrow> Inl e
           | Inr sig_bytes \<Rightarrow> Inr (message @ sig_bytes)))"

section \<open>actions.ts: sending an action\<close>

text \<open>
  \<^verbatim>\<open>sendAction\<close> frames and signs the action, sends it, and decodes the response
  (\<open>sendAction_receive\<close>, the first four statements of its body); a receipt of the
  error case is thrown as an error that carries the server's code.
\<close>

definition sendAction_receive ::
  "proto \<Rightarrow> (bytes \<Rightarrow> error + bytes) \<Rightarrow> (bytes \<Rightarrow> error + bytes) \<Rightarrow> Action
     \<Rightarrow> error + Receipt" where
  "sendAction_receive pr sendFn makeSignedMessage action =
     (case encodeLengthDelimited action (Action_encode pr) of
        Inl e \<Rightarrow> Inl e
      | Inr encoded \<Rightarrow>
          (case makeSignedMessage encoded of
             Inl e \<Rightarrow> Inl e
           | Inr body \<Rightarrow>
               (case sendFn body of
                  Inl e \<Rightarrow> Inl e
                | Inr rawResp \<Rightarrow> decodeLengthDelimited rawResp (Receipt_decode pr))))"

definition sendAction ::
  "proto \<Rightarrow> (bytes \<Rightarrow> error + bytes) \<Rightarrow> (bytes \<Rightarrow> error + bytes) \<Rightarrow> Action \<Rightarrow> string
     \<Rightarrow> error + Receipt" where
  "sendAction pr sendFn makeSignedMessage action actionErrorDesc =
     (case sendAction_receive pr sendFn makeSignedMessage action of
        Inl e \<Rightarrow> Inl e
      | Inr resp \<Rightarrow>
          (case receipt_kind resp of
             Some (Err code) \<Rightarrow> Inl (ServerError actionErrorDesc code)
           | _ \<Rightarrow> Inr resp))"

definition unexpected_kind :: "Receipt \<Rightarrow> error" where
  "unexpected_kind resp = UnexpectedReceiptKind (map_option case_tag (receipt_kind resp))"

section \<open>actions.ts: the six actions\<close>

text \<open>
  Each \<^verbatim>\<open>...Impl\<close> function first builds its action (the \<open>..._action\<close> function
  below is that part of its body, with every check that can throw), then sends it
  with \<open>sendAction\<close>, then reads the receipt. Identifiers given as \<^verbatim>\<open>BigIntValue\<close>
  are taken as the integers they convert to.
\<close>

record CreateSessionParams =
  userPubkey :: bytes
  sessionPubkey :: bytes
  expiryTimestamp :: "int option"

definition createSession_action :: "int \<Rightarrow> nat \<Rightarrow> CreateSessionParams \<Rightarrow> error + Action" where
  "createSession_action ts n params =
     (case checkPubKeyLength Secp256k1 (length (userPubkey params)) of
        Inl e \<Rightarrow> Inl e
      | Inr _ \<Rightarrow>
     (case checkPubKeyLength Ed25519 (length (sessionPubkey params)) of
        Inl e \<Rightarrow> Inl e
      | Inr _ \<Rightarrow>
     (case
        (case expiryTimestamp params of
           Some expiry \<Rightarrow>
             (case assert (expiry > ts) ''Cannot set expiry timestamp in the past'' of
                Inl e \<Rightarrow> Inl e
              | Inr _ \<Rightarrow> Inr expiry)
         | None \<Rightarrow> Inr (ts + SESSION_TTL))
      of
        Inl e \<Rightarrow> Inl e
      | Inr expiry \<Rightarrow>
          Inr \<lparr>currentTimestamp = ts, nonce = n,
               kind = CreateSession
                 \<lparr>cs_userPubkey = userPubkey params,
                  cs_blstPubkey = sessionPubkey params,
                  cs_expiryTimestamp = expiry\<rparr>\<rparr>)))"

definition createSessionImpl ::
  "proto \<Rightarrow> (bytes \<Rightarrow> error + bytes) \<Rightarrow> (bytes \<Rightarrow> error + string) \<Rightarrow> int \<Rightarrow> nat
     \<Rightarrow> CreateSessionParams \<Rightarrow> error + int" where
  "createSessionImpl pr sendFn walletSignFn ts n params =
     (case createSession_action ts n params of
        Inl e \<Rightarrow> Inl e
      | Inr action \<Rightarrow>
          (case sendAction pr sendFn (walletSign walletSignFn) action ''create a new session'' of
             Inl e \<Rightarrow> Inl e
           | Inr resp \<Rightarrow>
               (case receipt_kind resp of
                  Some (CreateSessionResult sessionId) \<Rightarrow> Inr sessionId
                | _ \<Rightarrow> Inl (unexpected_kind resp))))"

definition revokeSession_action :: "int \<Rightarrow> nat \<Rightarrow> int \<Rightarrow> Action" where
  "revokeSession_action ts n sessionId =
     \<lparr>currentTimestamp = ts, nonce = n, kind = RevokeSession sessionId\<rparr>"

definition revokeSessionImpl ::
  "proto \<Rightarrow> (bytes \<Rightarrow> error + bytes) \<Rightarrow> (bytes \<Rightarrow> error + string) \<Rightarrow> int \<Rightarrow> nat
     \<Rightarrow> int \<Rightarrow> error + unit" where
  "revokeSessionImpl pr sendFn walletSignFn ts n sessionId =
     (case sendAction pr sendFn (walletSign walletSignFn)
             (revokeSession_action ts n sessionId) ''create a new session'' of
        Inl e \<Rightarrow> Inl e
      | Inr resp \<Rightarrow> Inr ())"

record WithdrawParams =
  wp_sizeDecimals :: nat
  wp_sessionId :: int
  wp_tokenId :: nat
  wp_amount :: decimal

definition withdraw_action :: "int \<Rightarrow> nat \<Rightarrow> WithdrawParams \<Rightarrow> error + Action" where
  "withdraw_action ts n params =
     (case toScaledU64 (Fin (wp_amount params)) (wp_sizeDecimals params) of
        Inl e \<Rightarrow> Inl e
      | Inr amount \<Rightarrow>
          if amount \<le> 0 then Inl WithdrawNotPositive
          else
            Inr \<lparr>currentTimestamp = ts, nonce = n,
                 kind = Withdraw
                   \<lparr>wd_sessionId = wp_sessionId params,
                    wd_tokenId = wp_tokenId params,
                    wd_amount = amount\<rparr>\<rparr>)"

definition withdrawImpl ::
  "proto \<Rightarrow> (bytes \<Rightarrow> error + bytes) \<Rightarrow> (bytes \<Rightarrow> error + bytes) \<Rightarrow> int \<Rightarrow> nat
     \<Rightarrow> WithdrawParams \<Rightarrow> error + unit" where
  "withdrawImpl pr sendFn signFn ts n params =
     (case withdraw_action ts n params of
        Inl e \<Rightarrow> Inl e
      | Inr action \<Rightarrow>
          (case sendAction pr sendFn (sessionSign signFn) action ''withdraw'' of
             Inl e \<Rightarrow> Inl e
           | Inr resp \<Rightarrow> Inr ()))"

record PlaceOrderParams =
  pp_sessionId :: int
  pp_senderId :: "nat option"
  pp_liquidateeId :: "nat option"
  pp_sizeDecimals :: nat
  pp_priceDecimals :: nat
  pp_marketId :: nat
  pp_side :: Side
  pp_fillMode :: FillMode
  pp_isReduceOnly :: bool
  pp_size :: "decimal option"
  pp_price :: "decimal option"
  pp_quoteSize :: "decimal option"
  pp_clientOrderId :: "int option"

definition placeOrder_action :: "int \<Rightarrow> nat \<Rightarrow> PlaceOrderParams \<Rightarrow> error + Action" where
  "placeOrder_action ts n params =
     (case toScaledU64 (Fin (case pp_price params of Some p \<Rightarrow> p | None \<Rightarrow> ZERO_DECIMAL))
             (pp_priceDecimals params) of
        Inl e \<Rightarrow> Inl e
      | Inr price \<Rightarrow>
     (case toScaledU64 (Fin (case pp_size params of Some z \<Rightarrow> z | None \<Rightarrow> ZERO_DECIMAL))
             (pp_sizeDecimals params) of
        Inl e \<Rightarrow> Inl e
      | Inr size' \<Rightarrow>
     (case toScaledU128 (Fin (case pp_quoteSize params of Some q \<Rightarrow> q | None \<Rightarrow> ZERO_DECIMAL))
             (pp_priceDecimals params + pp_sizeDecimals params) of
        Inl e \<Rightarrow> Inl e
      | Inr quoteSize \<Rightarrow>
     (case fillModeToProtoFillMode (pp_fillMode params) of
        Inl e \<Rightarrow> Inl e
      | Inr fillMode \<Rightarrow>
     (case bigIntToProtoU128 quoteSize of
        Inl e \<Rightarrow> Inl e
      | Inr wide \<Rightarrow>
          Inr \<lparr>currentTimestamp = ts, nonce = n,
               kind = PlaceOrder
                 \<lparr>po_sessionId = pp_sessionId params,
                  po_senderAccountId = pp_senderId params,
                  po_marketId = pp_marketId params,
                  po_side = (if pp_side params = Bid then BID else ASK),
                  po_fillMode = fillMode,
                  po_isReduceOnly = pp_isReduceOnly params,
                  po_price = price,
                  po_size = size',
                  po_quoteSize = wide,
                  po_clientOrderId = optMap (pp_clientOrderId params) (\<lambda>x. x),
                  po_delegatorAccountId = pp_liquidateeId params\<rparr>\<rparr>)))))"

definition placeOrderImpl ::
  "proto \<Rightarrow> (bytes \<Rightarrow> error + bytes) \<Rightarrow> (bytes \<Rightarrow> error + bytes) \<Rightarrow> int \<Rightarrow> nat
     \<Rightarrow> PlaceOrderParams \<Rightarrow> error + int option" where
  "placeOrderImpl pr sendFn signFn ts n params =
     (case placeOrder_action ts n params of
        Inl e \<Rightarrow> Inl e
      | Inr action \<Rightarrow>
          (case sendAction pr sendFn (sessionSign signFn) action ''place the order'' of
             Inl e \<Rightarrow> Inl e
           | Inr resp \<Rightarrow>
               (case receipt_kind resp of
                  Some (PlaceOrderResult posted) \<Rightarrow> Inr posted
                | _ \<Rightarrow> Inl (unexpected_kind resp))))"

record CancelOrderParams =
  cp_sessionId :: int
  cp_senderId :: "nat option"
  cp_orderId :: int
  cp_liquidateeId :: "nat option"

definition cancelOrder_action :: "int \<Rightarrow> nat \<Rightarrow> CancelOrderParams \<Rightarrow> Action" where
  "cancelOrder_action ts n params =
     \<lparr>currentTimestamp = ts, nonce = n,
      kind = CancelOrderById
        \<lparr>co_orderId = cp_orderId params,
         co_sessionId = cp_sessionId params,
         co_senderAccountId = cp_senderId params,
         co_delegatorAccountId = cp_liquidateeId params\<rparr>\<rparr>"

definition cancelOrderImpl ::
  "proto \<Rightarrow> (bytes \<Rightarrow> error + bytes) \<Rightarrow> (bytes \<Rightarrow> error + bytes) \<Rightarrow> int \<Rightarrow> nat
     \<Rightarrow> CancelOrderParams \<Rightarrow> error + int" where
  "cancelOrderImpl pr sendFn signFn ts n params =
     (case sendAction pr sendFn (sessionSign signFn)
             (cancelOrder_action ts n params) ''cancel the order'' of
        Inl e \<Rightarrow> Inl e
      | Inr resp \<Rightarrow>
          (case receipt_kind resp of
             Some (CancelOrderResult orderId) \<Rightarrow> Inr orderId
           | _ \<Rightarrow> Inl (unexpected_kind resp)))"

record TransferParams =
  tp_sessionId :: int
  tp_fromAccountId :: nat
  tp_toAccountId :: "nat option"
  tp_tokenId :: nat
  tp_tokenDecimals :: nat
  tp_amount :: "decimal option"

definition transfer_action :: "int \<Rightarrow> nat \<Rightarrow> TransferParams \<Rightarrow> error + Action" where
  "transfer_action ts n params =
     (case toScaledU64 (Fin (case tp_amount params of Some a \<Rightarrow> a | None \<Rightarrow> ZERO_DECIMAL))
             (tp_tokenDecimals params) of
        Inl e \<Rightarrow> Inl e
      | Inr amount \<Rightarrow>
          Inr \<lparr>currentTimestamp = ts, nonce = n,
               kind = Transfer
                 \<lparr>tr_sessionId = tp_sessionId params,
                  tr_fromAccountId = tp_fromAccountId params,
                  tr_toAccountId = tp_toAccountId params,
                  tr_tokenId = tp_tokenId params,
                  tr_amount = amount\<rparr>\<rparr>)"

definition transferImpl ::
  "proto \<Rightarrow> (bytes \<Rightarrow> error + bytes) \<Rightarrow> (bytes \<Rightarrow> error + bytes) \<Rightarrow> int \<Rightarrow> nat
     \<Rightarrow> TransferParams \<Rightarrow> error + nat option" where
  "transferImpl pr sendFn signFn ts n params =
     (case transfer_action ts n params of
        Inl e \<Rightarrow> Inl e
      | Inr action \<Rightarrow>
          (case sendAction pr sendFn (sessionSign signFn) action
                  ''transfer asset to other account'' of
             Inl e \<Rightarrow> Inl e
           | Inr resp \<Rightarrow>
               (case receipt_kind resp of
                  Some (Transferred accountCreated toAccountId) \<Rightarrow>
                    if accountCreated then Inr toAccountId else Inr None
                | _ \<Rightarrow> Inl (unexpected_kind resp))))"

section \<open>NordUser: nonces\<close>

text \<open>
  The two fields \<^verbatim>\<open>getNonce\<close> reads and writes. The clock reading \<^verbatim>\<open>Date.now()\<close>
  is the parameter \<open>now\<close> (milliseconds); \<open>ts\<close> is that reading divided by 1000, and
  two clock readings give the same \<open>ts\<close> exactly when they are equal. The function
  returns the nonce and the updated user.
\<close>

record NordUser =
  lastTs :: rat
  lastNonce :: nat

definition getNonce :: "int \<Rightarrow> NordUser \<Rightarrow> nat \<times> NordUser" where
  "getNonce now user =
     (let ts = of_int now / 1000;
          user' =
            (if ts = lastTs user then user\<lparr>lastNonce := lastNonce user + 1\<rparr>
             else user\<lparr>lastTs := ts, lastNonce := 0\<rparr>)
      in (lastNonce user', user'))"

section \<open>Example inputs\<close>

text \<open>
  Concrete collaborators and parameters on which the functions are run: a schema coder
  that encodes every action as three bytes and decodes every payload as a fixed
  receipt, a channel that answers with one framed response, two signing capabilities,
  and the parameters of the end-to-end place-order scenario.
\<close>

definition example_proto :: "Receipt \<Rightarrow> proto" where
  "example_proto r = \<lparr>Action_encode = (\<lambda>a. Inr [1, 2, 3]), Receipt_decode = (\<lambda>bs. Inr r)\<rparr>"

definition example_sendFn :: "bytes \<Rightarrow> error + bytes" where
  "example_sendFn body = Inr [2, 8, 1]"

definition example_signFn :: "bytes \<Rightarrow> error + bytes" where
  "example_signFn message = Inr [9, 9]"

definition example_walletSignFn :: "bytes \<Rightarrow> error + string" where
  "example_walletSignFn message = Inr ''0x0a0B1c''"

definition scenario_params :: "decimal option \<Rightarrow> PlaceOrderParams" where
  "scenario_params q =
     \<lparr>pp_sessionId = 42, pp_senderId = None, pp_liquidateeId = None,
      pp_sizeDecimals = 6, pp_priceDecimals = 2, pp_marketId = 9,
      pp_side = Ask, pp_fillMode = Limit, pp_isReduceOnly = False,
      pp_size = Some (Decimal 1 0), pp_price = Some (Decimal 1 0),
      pp_quoteSize = q, pp_clientOrderId = None\<rparr>"

definition scenario_action :: "U128 \<Rightarrow> Action" where
  "scenario_action w =
     \<lparr>currentTimestamp = 0, nonce = 0,
      kind = PlaceOrder
        \<lparr>po_sessionId = 42, po_senderAccountId = None, po_marketId = 9,
         po_side = ASK, po_fillMode = LIMIT, po_isReduceOnly = False,
         po_price = 100, po_size = 1000000, po_quoteSize = w,
         po_clientOrderId = None, po_delegatorAccountId = None\<rparr>\<rparr>"

section \<open>The schema coder of actions\<close>

text \<open>
  Modelled from the spec: the schema-based binary encoding of the wire messages, in
  the protocol-buffer wire conventions that the framing names (the generated coder
  module of the messages, gen/nord, is not part of the repository). A field on the
  wire is a field number with a varint or with a length-delimited byte string.
\<close>

datatype wire_value = Varint nat | LengthDelimited bytes

text \<open>
  Modelled from the spec: a field on the wire is its number and its value (gen/nord
  is not part of the repository).
\<close>

type_synonym wire_field = "nat \<times> wire_value"

text \<open>
  Modelled from the spec: the little-endian base-128 varint of the wire conventions,
  the encoding that the length prefix uses (gen/nord is not part of the repository).
\<close>

definition varint :: "nat \<Rightarrow> bytes" where
  "varint v = uint32_write v"

text \<open>
  Modelled from the spec: reading a base-128 varint: seven bits from each byte, least
  significant group first, up to the first byte without the continuation bit; the
  result is the number and the bytes that follow (gen/nord is not part of the
  repository).
\<close>

fun varint_read :: "bytes \<Rightarrow> (nat \<times> bytes) option" where
  "varint_read [] = None"
| "varint_read (b # bs) =
     (if b AND 0x80 = 0 then Some (unat b, bs)
      else
        (case varint_read bs of
           None \<Rightarrow> None
         | Some (v, rest) \<Rightarrow> Some (unat (b AND 0x7f) + 128 * v, rest)))"

text \<open>
  Modelled from the spec: a field is written as its tag (the field number and the
  wire type, 0 for a varint and 2 for a length-delimited value) and its value, a
  length-delimited value after its length (gen/nord is not part of the repository).
\<close>

fun put_field :: "wire_field \<Rightarrow> bytes" where
  "put_field (n, Varint v) = varint (n * 8) @ varint v"
| "put_field (n, LengthDelimited bs) = varint (n * 8 + 2) @ varint (length bs) @ bs"

text \<open>
  Modelled from the spec: a message is the sequence of its fields (gen/nord is not
  part of the repository).
\<close>

definition put_fields :: "wire_field list \<Rightarrow> bytes" where
  "put_fields fs = concat (map put_field fs)"

text \<open>
  Modelled from the spec: reading the fields of a message back, one tag and one value
  at a time; any other wire type is a malformed message. The first argument bounds
  the number of fields (gen/nord is not part of the repository).
\<close>

fun get_fields :: "nat \<Rightarrow> bytes \<Rightarrow> wire_field list option" where
  "get_fields fuel [] = Some []"
| "get_fields 0 (b # bs) = None"
| "get_fields (Suc fuel) (b # bs) =
     (case varint_read (b # bs) of
        None \<Rightarrow> None
      | Some (tag, r1) \<Rightarrow>
          if tag mod 8 = 0 then
            (case varint_read r1 of
               None \<Rightarrow> None
             | Some (v, r2) \<Rightarrow> map_option ((#) (tag div 8, Varint v)) (get_fields fuel r2))
          else if tag mod 8 = 2 then
            (case varint_read r1 of
               None \<Rightarrow> None
             | Some (len, r2) \<Rightarrow>
                 if length r2 < len then None
                 else map_option ((#) (tag div 8, LengthDelimited (take len r2)))
                        (get_fields fuel (drop len r2)))
          else None)"

text \<open>
  Modelled from the spec: the fields of a serialised message; a message has at most
  as many fields as bytes (gen/nord is not part of the repository).
\<close>

definition parse_fields :: "bytes \<Rightarrow> wire_field list option" where
  "parse_fields bs = get_fields (length bs) bs"

text \<open>
  Modelled from the spec: the value of a field of a message, the last one when the
  field occurs more than once (gen/nord is not part of the repository).
\<close>

fun field_of :: "nat \<Rightarrow> wire_field list \<Rightarrow> wire_value option" where
  "field_of n [] = None"
| "field_of n ((m, v) # fs) =
     (case field_of n fs of
        Some w \<Rightarrow> Some w
      | None \<Rightarrow> if m = n then Some v else None)"

text \<open>
  Modelled from the spec: an unsigned numeric field, zero when absent (gen/nord is
  not part of the repository).
\<close>

definition uint_field :: "nat \<Rightarrow> wire_field list \<Rightarrow> nat" where
  "uint_field n fs = (case field_of n fs of Some (Varint v) \<Rightarrow> v | _ \<Rightarrow> 0)"

text \<open>
  Modelled from the spec: an optional numeric field, present or absent (gen/nord is
  not part of the repository).
\<close>

definition opt_uint_field :: "nat \<Rightarrow> wire_field list \<Rightarrow> nat option" where
  "opt_uint_field n fs = (case field_of n fs of Some (Varint v) \<Rightarrow> Some v | _ \<Rightarrow> None)"

text \<open>
  Modelled from the spec: a byte-string field, empty when absent (gen/nord is not
  part of the repository).
\<close>

definition bytes_field :: "nat \<Rightarrow> wire_field list \<Rightarrow> bytes" where
  "bytes_field n fs = (case field_of n fs of Some (LengthDelimited b) \<Rightarrow> b | _ \<Rightarrow> [])"

text \<open>
  Modelled from the spec: a field that holds a nested message (gen/nord is not part
  of the repository).
\<close>

definition message_field :: "nat \<Rightarrow> wire_field list \<Rightarrow> wire_field list option" where
  "message_field n fs =
     (case field_of n fs of Some (LengthDelimited b) \<Rightarrow> parse_fields b | _ \<Rightarrow> None)"

text \<open>
  Modelled from the spec: an optional numeric field is written only when it is
  present (gen/nord is not part of the repository).
\<close>

definition opt_field :: "nat \<Rightarrow> nat option \<Rightarrow> wire_field list" where
  "opt_field n v = (case v of None \<Rightarrow> [] | Some x \<Rightarrow> [(n, Varint x)])"

text \<open>
  Modelled from the spec: identifiers, timestamps and scaled amounts are unsigned
  64-bit numbers; encoding any other value fails (gen/nord is not part of the
  repository).
\<close>

definition u64 :: "int \<Rightarrow> bool" where
  "u64 v = (0 \<le> v \<and> v < 2 ^ 64)"

text \<open>
  Modelled from the spec: nonces and account, token and market numbers are unsigned
  32-bit numbers (gen/nord is not part of the repository).
\<close>

definition u32 :: "nat \<Rightarrow> bool" where
  "u32 v = (v < 2 ^ 32)"

text \<open>
  Modelled from the spec: the range of an optional 32-bit field (gen/nord is not part
  of the repository).
\<close>

definition opt_u32 :: "nat option \<Rightarrow> bool" where
  "opt_u32 v = (case v of None \<Rightarrow> True | Some x \<Rightarrow> u32 x)"

text \<open>
  Modelled from the spec: the range of an optional 64-bit field (gen/nord is not part
  of the repository).
\<close>

definition opt_u64 :: "int option \<Rightarrow> bool" where
  "opt_u64 v = (case v of None \<Rightarrow> True | Some x \<Rightarrow> u64 x)"

text \<open>
  Modelled from the spec: a numeric field wider than 64 bits is transported as the
  pair of its low and high 64-bit words (gen/nord is not part of the repository).
\<close>

definition U128_fields :: "U128 \<Rightarrow> wire_field list" where
  "U128_fields u = [(1, Varint (nat (lo u))), (2, Varint (nat (hi u)))]"

text \<open>
  Modelled from the spec: reading the pair of words back (gen/nord is not part of the
  repository).
\<close>

definition U128_of_fields :: "wire_field list \<Rightarrow> U128" where
  "U128_of_fields fs = \<lparr>lo = int (uint_field 1 fs), hi = int (uint_field 2 fs)\<rparr>"

text \<open>
  Modelled from the spec: both words of the pair fit in 64 bits (gen/nord is not part
  of the repository).
\<close>

definition U128_valid :: "U128 \<Rightarrow> bool" where
  "U128_valid u = (u64 (lo u) \<and> u64 (hi u))"

text \<open>
  Modelled from the spec: the side of an order is one of the fixed enumeration Ask,
  Bid (gen/nord is not part of the repository).
\<close>

definition Side_code :: "proto_Side \<Rightarrow> nat" where
  "Side_code s = (case s of ASK \<Rightarrow> 0 | BID \<Rightarrow> 1)"

text \<open>
  Modelled from the spec: reading a side back; any other number is a malformed
  message (gen/nord is not part of the repository).
\<close>

definition Side_of_code :: "nat \<Rightarrow> proto_Side option" where
  "Side_of_code c = (if c = 0 then Some ASK else if c = 1 then Some BID else None)"

text \<open>
  Modelled from the spec: the fill mode is one of the fixed enumeration Limit,
  PostOnly, ImmediateOrCancel, FillOrKill (gen/nord is not part of the repository).
\<close>

definition FillMode_code :: "proto_FillMode \<Rightarrow> nat" where
  "FillMode_code m =
     (case m of LIMIT \<Rightarrow> 0 | POST_ONLY \<Rightarrow> 1 | IMMEDIATE_OR_CANCEL \<Rightarrow> 2 | FILL_OR_KILL \<Rightarrow> 3)"

text \<open>
  Modelled from the spec: reading a fill mode back; any other number is a malformed
  message (gen/nord is not part of the repository).
\<close>

definition FillMode_of_code :: "nat \<Rightarrow> proto_FillMode option" where
  "FillMode_of_code c =
     (if c = 0 then Some LIMIT else if c = 1 then Some POST_ONLY
      else if c = 2 then Some IMMEDIATE_OR_CANCEL else if c = 3 then Some FILL_OR_KILL
      else None)"

text \<open>
  Modelled from the spec: the CreateSession payload is the user key, the session key
  and the expiry (gen/nord is not part of the repository). The field numbers are
  those of the schema file, which is not part of the repository either; here and
  below the fields of a message are numbered from 1 in the order in which the
  builders of actions.ts list them.
\<close>

definition CreateSession_fields :: "CreateSession_msg \<Rightarrow> wire_field list" where
  "CreateSession_fields m =
     [(1, LengthDelimited (cs_userPubkey m)),
      (2, LengthDelimited (cs_blstPubkey m)),
      (3, Varint (nat (cs_expiryTimestamp m)))]"

text \<open>
  Modelled from the spec: reading a CreateSession payload back (gen/nord is not part
  of the repository).
\<close>

definition CreateSession_of_fields :: "wire_field list \<Rightarrow> CreateSession_msg" where
  "CreateSession_of_fields fs =
     \<lparr>cs_userPubkey = bytes_field 1 fs,
      cs_blstPubkey = bytes_field 2 fs,
      cs_expiryTimestamp = int (uint_field 3 fs)\<rparr>"

text \<open>
  Modelled from the spec: the values of a CreateSession payload that can be encoded
  (gen/nord is not part of the repository).
\<close>

definition CreateSession_valid :: "CreateSession_msg \<Rightarrow> bool" where
  "CreateSession_valid m = u64 (cs_expiryTimestamp m)"

text \<open>
  Modelled from the spec: the RevokeSession payload is the session identifier only
  (gen/nord is not part of the repository).
\<close>

definition RevokeSession_fields :: "int \<Rightarrow> wire_field list" where
  "RevokeSession_fields sessionId = [(1, Varint (nat sessionId))]"

text \<open>
  Modelled from the spec: reading a RevokeSession payload back (gen/nord is not part
  of the repository).
\<close>

definition RevokeSession_of_fields :: "wire_field list \<Rightarrow> int" where
  "RevokeSession_of_fields fs = int (uint_field 1 fs)"

text \<open>
  Modelled from the spec: the Withdraw payload is the session identifier, the token
  and the amount (gen/nord is not part of the repository).
\<close>

definition Withdraw_fields :: "Withdraw_msg \<Rightarrow> wire_field list" where
  "Withdraw_fields m =
     [(1, Varint (nat (wd_sessionId m))),
      (2, Varint (wd_tokenId m)),
      (3, Varint (nat (wd_amount m)))]"

text \<open>
  Modelled from the spec: reading a Withdraw payload back (gen/nord is not part of
  the repository).
\<close>

definition Withdraw_of_fields :: "wire_field list \<Rightarrow> Withdraw_msg" where
  "Withdraw_of_fields fs =
     \<lparr>wd_sessionId = int (uint_field 1 fs),
      wd_tokenId = uint_field 2 fs,
      wd_amount = int (uint_field 3 fs)\<rparr>"

text \<open>
  Modelled from the spec: the values of a Withdraw payload that can be encoded
  (gen/nord is not part of the repository).
\<close>

definition Withdraw_valid :: "Withdraw_msg \<Rightarrow> bool" where
  "Withdraw_valid m = (u64 (wd_sessionId m) \<and> u32 (wd_tokenId m) \<and> u64 (wd_amount m))"

text \<open>
  Modelled from the spec: the PlaceOrder payload, with its three optional fields
  (sender account, client order identifier, delegator account) and the quote size as
  a wide pair (gen/nord is not part of the repository).
\<close>

definition PlaceOrder_fields :: "PlaceOrder_msg \<Rightarrow> wire_field list" where
  "PlaceOrder_fields m =
     [(1, Varint (nat (po_sessionId m)))] @
     opt_field 2 (po_senderAccountId m) @
     [(3, Varint (po_marketId m)),
      (4, Varint (Side_code (po_side m))),
      (5, Varint (FillMode_code (po_fillMode m))),
      (6, Varint (if po_isReduceOnly m then 1 else 0)),
      (7, Varint (nat (po_price m))),
      (8, Varint (nat (po_size m))),
      (9, LengthDelimited (put_fields (U128_fields (po_quoteSize m))))] @
     opt_field 10 (map_option nat (po_clientOrderId m)) @
     opt_field 11 (po_delegatorAccountId m)"

text \<open>
  Modelled from the spec: reading a PlaceOrder payload back (gen/nord is not part of
  the repository).
\<close>

definition PlaceOrder_of_fields :: "wire_field list \<Rightarrow> PlaceOrder_msg option" where
  "PlaceOrder_of_fields fs =
     (case Side_of_code (uint_field 4 fs) of
        None \<Rightarrow> None
      | Some side \<Rightarrow>
     (case FillMode_of_code (uint_field 5 fs) of
        None \<Rightarrow> None
      | Some fillMode \<Rightarrow>
     (case message_field 9 fs of
        None \<Rightarrow> None
      | Some quoteSize \<Rightarrow>
          Some \<lparr>po_sessionId = int (uint_field 1 fs),
                po_senderAccountId = opt_uint_field 2 fs,
                po_marketId = uint_field 3 fs,
                po_side = side,
                po_fillMode = fillMode,
                po_isReduceOnly = (uint_field 6 fs \<noteq> 0),
                po_price = int (uint_field 7 fs),
                po_size = int (uint_field 8 fs),
                po_quoteSize = U128_of_fields quoteSize,
                po_clientOrderId = map_option int (opt_uint_field 10 fs),
                po_delegatorAccountId = opt_uint_field 11 fs\<rparr>)))"

text \<open>
  Modelled from the spec: the values of a PlaceOrder payload that can be encoded
  (gen/nord is not part of the repository).
\<close>

definition PlaceOrder_valid :: "PlaceOrder_msg \<Rightarrow> bool" where
  "PlaceOrder_valid m =
     (u64 (po_sessionId m) \<and> opt_u32 (po_senderAccountId m) \<and> u32 (po_marketId m) \<and>
      u64 (po_price m) \<and> u64 (po_size m) \<and> U128_valid (po_quoteSize m) \<and>
      opt_u64 (po_clientOrderId m) \<and> opt_u32 (po_delegatorAccountId m))"

text \<open>
  Modelled from the spec: the CancelOrderById payload, with its two optional account
  fields (gen/nord is not part of the repository).
\<close>

definition CancelOrderById_fields :: "CancelOrderById_msg \<Rightarrow> wire_field list" where
  "CancelOrderById_fields m =
     [(1, Varint (nat (co_orderId m))),
      (2, Varint (nat (co_sessionId m)))] @
     opt_field 3 (co_senderAccountId m) @
     opt_field 4 (co_delegatorAccountId m)"

text \<open>
  Modelled from the spec: reading a CancelOrderById payload back (gen/nord is not
  part of the repository).
\<close>

definition CancelOrderById_of_fields :: "wire_field list \<Rightarrow> CancelOrderById_msg" where
  "CancelOrderById_of_fields fs =
     \<lparr>co_orderId = int (uint_field 1 fs),
      co_sessionId = int (uint_field 2 fs),
      co_senderAccountId = opt_uint_field 3 fs,
      co_delegatorAccountId = opt_uint_field 4 fs\<rparr>"

text \<open>
  Modelled from the spec: the values of a CancelOrderById payload that can be encoded
  (gen/nord is not part of the repository).
\<close>

definition CancelOrderById_valid :: "CancelOrderById_msg \<Rightarrow> bool" where
  "CancelOrderById_valid m =
     (u64 (co_orderId m) \<and> u64 (co_sessionId m) \<and> opt_u32 (co_senderAccountId m) \<and>
      opt_u32 (co_delegatorAccountId m))"

text \<open>
  Modelled from the spec: the Transfer payload, with its optional target account
  (gen/nord is not part of the repository).
\<close>

definition Transfer_fields :: "Transfer_msg \<Rightarrow> wire_field list" where
  "Transfer_fields m =
     [(1, Varint (nat (tr_sessionId m))),
      (2, Varint (tr_fromAccountId m))] @
     opt_field 3 (tr_toAccountId m) @
     [(4, Varint (tr_tokenId m)),
      (5, Varint (nat (tr_amount m)))]"

text \<open>
  Modelled from the spec: reading a Transfer payload back (gen/nord is not part of
  the repository).
\<close>

definition Transfer_of_fields :: "wire_field list \<Rightarrow> Transfer_msg" where
  "Transfer_of_fields fs =
     \<lparr>tr_sessionId = int (uint_field 1 fs),
      tr_fromAccountId = uint_field 2 fs,
      tr_toAccountId = opt_uint_field 3 fs,
      tr_tokenId = uint_field 4 fs,
      tr_amount = int (uint_field 5 fs)\<rparr>"

text \<open>
  Modelled from the spec: the values of a Transfer payload that can be encoded
  (gen/nord is not part of the repository).
\<close>

definition Transfer_valid :: "Transfer_msg \<Rightarrow> bool" where
  "Transfer_valid m =
     (u64 (tr_sessionId m) \<and> u32 (tr_fromAccountId m) \<and> opt_u32 (tr_toAccountId m) \<and>
      u32 (tr_tokenId m) \<and> u64 (tr_amount m))"

text \<open>
  Modelled from the spec: an action is a tagged union over its six variants (gen/nord
  is not part of the repository). In the wire conventions a variant is one field of
  the action that holds the payload as a nested message; the six variants take the
  numbers after the timestamp and the nonce.
\<close>

definition kind_field :: "ActionKind \<Rightarrow> wire_field" where
  "kind_field k =
     (case k of
        CreateSession m \<Rightarrow> (3, LengthDelimited (put_fields (CreateSession_fields m)))
      | RevokeSession sessionId \<Rightarrow> (4, LengthDelimited (put_fields (RevokeSession_fields sessionId)))
      | Withdraw m \<Rightarrow> (5, LengthDelimited (put_fields (Withdraw_fields m)))
      | PlaceOrder m \<Rightarrow> (6, LengthDelimited (put_fields (PlaceOrder_fields m)))
      | CancelOrderById m \<Rightarrow> (7, LengthDelimited (put_fields (CancelOrderById_fields m)))
      | Transfer m \<Rightarrow> (8, LengthDelimited (put_fields (Transfer_fields m))))"

text \<open>
  Modelled from the spec: the variant field of an action on the wire, the last one
  when several occur (gen/nord is not part of the repository).
\<close>

fun last_kind :: "wire_field list \<Rightarrow> (nat \<times> bytes) option" where
  "last_kind [] = None"
| "last_kind ((n, v) # fs) =
     (case last_kind fs of
        Some r \<Rightarrow> Some r
      | None \<Rightarrow>
          (case v of
             LengthDelimited b \<Rightarrow> if 3 \<le> n \<and> n \<le> 8 then Some (n, b) else None
           | Varint x \<Rightarrow> None))"

text \<open>
  Modelled from the spec: reading the variant of an action back from its field
  (gen/nord is not part of the repository).
\<close>

definition kind_of_fields :: "wire_field list \<Rightarrow> ActionKind option" where
  "kind_of_fields fs =
     (case last_kind fs of
        None \<Rightarrow> None
      | Some (n, b) \<Rightarrow>
          (case parse_fields b of
             None \<Rightarrow> None
           | Some sub \<Rightarrow>
               if n = 3 then Some (CreateSession (CreateSession_of_fields sub))
               else if n = 4 then Some (RevokeSession (RevokeSession_of_fields sub))
               else if n = 5 then Some (Withdraw (Withdraw_of_fields sub))
               else if n = 6 then map_option PlaceOrder (PlaceOrder_of_fields sub)
               else if n = 7 then Some (CancelOrderById (CancelOrderById_of_fields sub))
               else Some (Transfer (Transfer_of_fields sub))))"

text \<open>
  Modelled from the spec: the payloads that can be encoded (gen/nord is not part of
  the repository).
\<close>

definition kind_valid :: "ActionKind \<Rightarrow> bool" where
  "kind_valid k =
     (case k of
        CreateSession m \<Rightarrow> CreateSession_valid m
      | RevokeSession sessionId \<Rightarrow> u64 sessionId
      | Withdraw m \<Rightarrow> Withdraw_valid m
      | PlaceOrder m \<Rightarrow> PlaceOrder_valid m
      | CancelOrderById m \<Rightarrow> CancelOrderById_valid m
      | Transfer m \<Rightarrow> Transfer_valid m)"

text \<open>
  Modelled from the spec: every action carries its timestamp, its nonce and its
  variant (gen/nord is not part of the repository).
\<close>

definition Action_fields :: "Action \<Rightarrow> wire_field list" where
  "Action_fields a =
     [(1, Varint (nat (currentTimestamp a))), (2, Varint (nonce a)), kind_field (kind a)]"

text \<open>
  Modelled from the spec: reading an action back; an action without a variant is a
  malformed message (gen/nord is not part of the repository).
\<close>

definition Action_of_fields :: "wire_field list \<Rightarrow> Action option" where
  "Action_of_fields fs =
     (case kind_of_fields fs of
        None \<Rightarrow> None
      | Some k \<Rightarrow>
          Some \<lparr>currentTimestamp = int (uint_field 1 fs), nonce = uint_field 2 fs, kind = k\<rparr>)"

text \<open>
  Modelled from the spec: the actions that can be encoded (gen/nord is not part of
  the repository).
\<close>

definition Action_valid :: "Action \<Rightarrow> bool" where
  "Action_valid a = (u64 (currentTimestamp a) \<and> u32 (nonce a) \<and> kind_valid (kind a))"

text \<open>
  Modelled from the spec: the schema encoder of actions, which fails on a value
  outside the range of its field (gen/nord is not part of the repository).
\<close>

definition Action_encode_model :: "Action \<Rightarrow> error + bytes" where
  "Action_encode_model a =
     (if Action_valid a then Inr (put_fields (Action_fields a)) else Inl EncodeOutOfRange)"

text \<open>
  Modelled from the spec: the schema decoder of actions, which fails on a malformed
  message (gen/nord is not part of the repository).
\<close>

definition Action_decode_model :: "bytes \<Rightarrow> error + Action" where
  "Action_decode_model bs =
     (case parse_fields bs of
        None \<Rightarrow> Inl MalformedMessage
      | Some fs \<Rightarrow>
          (case Action_of_fields fs of
             None \<Rightarrow> Inl MalformedMessage
           | Some a \<Rightarrow> Inr a))"

text \<open>
  The action of the encode-decode test of the repository, and its frame under the
  schema coder above.
\<close>

definition test_action :: Action where
  "test_action =
     \<lparr>currentTimestamp = 0, nonce = 0,
      kind = PlaceOrder
        \<lparr>po_sessionId = 42, po_senderAccountId = None, po_marketId = 9,
         po_side = ASK, po_fillMode = LIMIT, po_isReduceOnly = False,
         po_price = 12, po_size = 39, po_quoteSize = \<lparr>lo = 54, hi = 55\<rparr>,
         po_clientOrderId = Some 350, po_delegatorAccountId = None\<rparr>\<rparr>"

definition test_frame :: bytes where
  "test_frame =
     [29, 8, 0, 16, 0, 50, 23, 8, 42, 24, 9, 32, 0, 40, 0, 48, 0, 56, 12, 64, 39,
      74, 4, 8, 54, 16, 55, 80, 222, 2]"

section \<open>Properties of the 128-bit split\<close>

lemma U64_MAX_mask: "U64_MAX = mask 64"
  by (simp add: U64_MAX_def mask_eq_exp_minus_1)

lemma and_U64_MAX: "v AND U64_MAX = v mod 2 ^ 64"
  unfolding U64_MAX_mask by (simp only: take_bit_eq_mod flip: take_bit_eq_mask)

lemma U128_MAX_value: "U128_MAX = 2 ^ 128 - 1"
  by (simp add: U128_MAX_def)

lemma U64_MAX_value: "U64_MAX = 2 ^ 64 - 1"
  by (simp add: U64_MAX_def)

lemma high_word_bounds:
  "0 \<le> v \<Longrightarrow> v \<le> 2 ^ 128 - 1 \<Longrightarrow> 0 \<le> v div 2 ^ 64 \<and> v div 2 ^ 64 < (2 ^ 64 :: int)"
  by auto

lemma bigIntToProtoU128_in_range:
  assumes "0 \<le> v" and "v \<le> 2 ^ 128 - 1"
  shows "bigIntToProtoU128 v = Inr \<lparr>lo = v mod 2 ^ 64, hi = v div 2 ^ 64\<rparr>"
proof -
  have "(v div 2 ^ 64) mod 2 ^ 64 = v div 2 ^ 64"
    using high_word_bounds [OF assms] by (simp only: mod_pos_pos_trivial)
  then show ?thesis
    using assms
    by (simp only: bigIntToProtoU128_def and_U64_MAX drop_bit_eq_div U128_MAX_value)
       simp
qed

text \<open>
  C4. \<^verbatim>\<open>bigIntToProtoU128\<close> fails exactly when its input is negative or above
  \<open>2^128 - 1\<close>. Otherwise it returns \<open>lo = value & (2^64 - 1)\<close> and
  \<open>hi = (value >> 64) & (2^64 - 1)\<close>; both words lie in \<open>[0, 2^64)\<close> and
  \<open>lo + hi * 2^64\<close> is the input. The four boundary values split as the
  specification lists them.
\<close>

theorem bigIntToProtoU128_spec:
  "(isl (bigIntToProtoU128 v) \<longleftrightarrow> v < 0 \<or> v > 2 ^ 128 - 1) \<and>
   (0 \<le> v \<and> v \<le> 2 ^ 128 - 1 \<longrightarrow>
      (\<exists>r. bigIntToProtoU128 v = Inr r \<and>
           lo r = v AND (2 ^ 64 - 1) \<and>
           hi r = drop_bit 64 v AND (2 ^ 64 - 1) \<and>
           0 \<le> lo r \<and> lo r < 2 ^ 64 \<and> 0 \<le> hi r \<and> hi r < 2 ^ 64 \<and>
           lo r + hi r * 2 ^ 64 = v)) \<and>
   bigIntToProtoU128 0 = Inr \<lparr>lo = 0, hi = 0\<rparr> \<and>
   bigIntToProtoU128 (2 ^ 64 - 1) = Inr \<lparr>lo = 2 ^ 64 - 1, hi = 0\<rparr> \<and>
   bigIntToProtoU128 (2 ^ 64) = Inr \<lparr>lo = 0, hi = 1\<rparr> \<and>
   bigIntToProtoU128 (2 ^ 128 - 1) = Inr \<lparr>lo = 2 ^ 64 - 1, hi = 2 ^ 64 - 1\<rparr>"
proof -
  have fails: "isl (bigIntToProtoU128 v) \<longleftrightarrow> v < 0 \<or> v > 2 ^ 128 - 1"
    by (simp add: bigIntToProtoU128_def U128_MAX_value)
  have splits: "\<exists>r. bigIntToProtoU128 v = Inr r \<and>
           lo r = v AND (2 ^ 64 - 1) \<and>
           hi r = drop_bit 64 v AND (2 ^ 64 - 1) \<and>
           0 \<le> lo r \<and> lo r < 2 ^ 64 \<and> 0 \<le> hi r \<and> hi r < 2 ^ 64 \<and>
           lo r + hi r * 2 ^ 64 = v"
    if range: "0 \<le> v" "v \<le> 2 ^ 128 - 1"
  proof -
    let ?r = "\<lparr>lo = v mod 2 ^ 64, hi = v div 2 ^ 64\<rparr>"
    have res: "bigIntToProtoU128 v = Inr ?r"
      by (rule bigIntToProtoU128_in_range [OF range])
    have hi_mod: "(v div 2 ^ 64) mod 2 ^ 64 = v div 2 ^ 64"
      using high_word_bounds [OF range] by (simp only: mod_pos_pos_trivial)
    have lo_eq: "lo ?r = v AND (2 ^ 64 - 1)"
      by (simp only: and_U64_MAX flip: U64_MAX_value) simp
    have hi_eq: "hi ?r = drop_bit 64 v AND (2 ^ 64 - 1)"
      by (simp only: and_U64_MAX drop_bit_eq_div hi_mod flip: U64_MAX_value) simp
    have lo_bounds: "0 \<le> lo ?r \<and> lo ?r < 2 ^ 64"
      by simp
    have hi_bounds: "0 \<le> hi ?r \<and> hi ?r < 2 ^ 64"
      using high_word_bounds [OF range] by simp
    have sum: "lo ?r + hi ?r * 2 ^ 64 = v"
      by simp
    from res lo_eq hi_eq lo_bounds hi_bounds sum show ?thesis
      by blast
  qed
  have e0: "bigIntToProtoU128 0 = Inr \<lparr>lo = 0, hi = 0\<rparr>"
    using bigIntToProtoU128_in_range [of 0] by simp
  have e1: "bigIntToProtoU128 (2 ^ 64 - 1) = Inr \<lparr>lo = 2 ^ 64 - 1, hi = 0\<rparr>"
    using bigIntToProtoU128_in_range [of "2 ^ 64 - 1"] by simp
  have e2: "bigIntToProtoU128 (2 ^ 64) = Inr \<lparr>lo = 0, hi = 1\<rparr>"
    using bigIntToProtoU128_in_range [of "2 ^ 64"] by simp
  have e3: "bigIntToProtoU128 (2 ^ 128 - 1) = Inr \<lparr>lo = 2 ^ 64 - 1, hi = 2 ^ 64 - 1\<rparr>"
    using bigIntToProtoU128_in_range [of "2 ^ 128 - 1"] by simp
  show ?thesis
    using fails splits e0 e1 e2 e3 by blast
qed

theorem bigIntToProtoU128_spec_witness:
  "(0::int) \<le> 2 ^ 64 + 5 \<and> (2 ^ 64 + 5 :: int) \<le> 2 ^ 128 - 1 \<and>
   bigIntToProtoU128 (2 ^ 64 + 5) = Inr \<lparr>lo = 5, hi = 1\<rparr> \<and>
   \<not> isl (bigIntToProtoU128 (2 ^ 64 + 5))"
proof -
  have range: "(0::int) \<le> 2 ^ 64 + 5 \<and> (2 ^ 64 + 5 :: int) \<le> 2 ^ 128 - 1"
    by simp
  from bigIntToProtoU128_spec [of "2 ^ 64 + 5"] range
  have ok: "\<not> isl (bigIntToProtoU128 (2 ^ 64 + 5))"
    by auto
  have "bigIntToProtoU128 (2 ^ 64 + 5) = Inr \<lparr>lo = 5, hi = 1\<rparr>"
    using bigIntToProtoU128_in_range [of "2 ^ 64 + 5"] by simp
  with range ok show ?thesis by simp
qed

section \<open>Properties of the scaled conversion\<close>

lemma ndigits_pos: "0 < ndigits n"
  by (subst ndigits.simps) simp

lemma ndigits_le_iff: "ndigits n \<le> Suc k \<longleftrightarrow> n < 10 ^ Suc k"
proof (induction n arbitrary: k rule: ndigits.induct)
  case (1 n)
  show ?case
  proof (cases "n < 10")
    case True
    have "(10::nat) \<le> 10 ^ Suc k" by simp
    with True have "n < 10 ^ Suc k" by linarith
    with True show ?thesis by (subst ndigits.simps) simp
  next
    case False
    show ?thesis
    proof (cases k)
      case 0
      with False ndigits_pos [of "n div 10"] show ?thesis
        by (subst ndigits.simps) simp
    next
      case (Suc j)
      have "ndigits n \<le> Suc k \<longleftrightarrow> ndigits (n div 10) \<le> Suc j"
        using False Suc by (subst ndigits.simps) simp
      also have "\<dots> \<longleftrightarrow> n div 10 < 10 ^ Suc j"
        using "1.IH" [OF False] .
      also have "\<dots> \<longleftrightarrow> n < 10 ^ Suc k"
        using Suc by (simp add: div_less_iff_less_mult mult.commute)
      finally show ?thesis .
    qed
  qed
qed

lemma ndigits_eqI: "10 ^ k \<le> n \<Longrightarrow> n < 10 ^ Suc k \<Longrightarrow> ndigits n = Suc k"
proof -
  assume lo: "10 ^ k \<le> n" and hi: "n < 10 ^ Suc k"
  from hi have le: "ndigits n \<le> Suc k" by (simp only: ndigits_le_iff)
  have "\<not> ndigits n \<le> k"
  proof (cases k)
    case 0
    with ndigits_pos [of n] show ?thesis by simp
  next
    case (Suc j)
    with lo show ?thesis by (simp only: ndigits_le_iff)
  qed
  with le show ?thesis by simp
qed

lemma dec_value_sign:
  "(dec_value x < 0 \<longleftrightarrow> coef x < 0) \<and> (dec_value x = 0 \<longleftrightarrow> coef x = 0) \<and>
   (0 < dec_value x \<longleftrightarrow> 0 < coef x)"
proof -
  have pos: "(0::rat) < 10 powi expo x"
    by (rule zero_less_power_int) simp
  then have "(0::rat) \<le> 10 powi expo x"
    by (rule less_imp_le)
  then have "\<not> (10::rat) powi expo x < 0"
    by (simp only: not_less)
  with pos show ?thesis
    by (simp add: dec_value_def zero_less_mult_iff mult_less_0_iff)
qed

lemma spec_round_down_eq:
  "spec_round_down x d =
     (if 0 \<le> expo x + int d then coef x * 10 ^ nat (expo x + int d)
      else coef x div 10 ^ nat (- (expo x + int d)))"
proof -
  have shift: "dec_value x * 10 ^ d = of_int (coef x) * 10 powi (expo x + int d)"
    by (simp add: dec_value_def power_int_add)
  show ?thesis
  proof (cases "0 \<le> expo x + int d")
    case True
    then have "(10::rat) powi (expo x + int d) = of_int (10 ^ nat (expo x + int d))"
      by (simp add: power_int_def)
    then have "dec_value x * 10 ^ d = of_int (coef x * 10 ^ nat (expo x + int d))"
      unfolding shift by simp
    then have "spec_round_down x d = coef x * 10 ^ nat (expo x + int d)"
      unfolding spec_round_down_def by (simp only: floor_of_int)
    with True show ?thesis by simp
  next
    case False
    then have "(10::rat) powi (expo x + int d) = 1 / of_int (10 ^ nat (- (expo x + int d)))"
      by (simp add: power_int_def field_simps)
    then have "dec_value x * 10 ^ d = of_int (coef x) / of_int (10 ^ nat (- (expo x + int d)))"
      unfolding shift by simp
    then have "spec_round_down x d = coef x div 10 ^ nat (- (expo x + int d))"
      unfolding spec_round_down_def by (simp only: floor_divide_of_int_eq)
    with False show ?thesis by simp
  qed
qed


lemma ndigits_gt: "10 ^ k \<le> n \<Longrightarrow> k < ndigits n"
proof (cases k)
  case 0
  then show ?thesis by (simp add: ndigits_pos)
next
  case (Suc j)
  assume "10 ^ k \<le> n"
  then have "\<not> n < 10 ^ Suc j" using Suc by simp
  then have "\<not> ndigits n \<le> Suc j" unfolding ndigits_le_iff .
  with Suc show ?thesis by simp
qed

lemma ndigits_upper: "n < 10 ^ ndigits n"
proof -
  obtain j where j: "ndigits n = Suc j"
    using ndigits_pos [of n] by (cases "ndigits n") auto
  then have "ndigits n \<le> Suc j" by simp
  then have "n < 10 ^ Suc j" unfolding ndigits_le_iff .
  with j show ?thesis by simp
qed

lemma ndigits_lower: "0 < n \<Longrightarrow> 10 ^ (ndigits n - 1) \<le> n"
proof (rule ccontr)
  assume n: "0 < n" and "\<not> 10 ^ (ndigits n - 1) \<le> n"
  then have lt: "n < 10 ^ (ndigits n - 1)" by simp
  show False
  proof (cases "ndigits n - 1")
    case 0
    with lt n show False by simp
  next
    case (Suc j)
    with lt have "n < 10 ^ Suc j" by simp
    then have "ndigits n \<le> Suc j" unfolding ndigits_le_iff .
    with Suc show False by simp
  qed
qed

lemma ndigits_le_pow: "0 < k \<Longrightarrow> n < 10 ^ k \<Longrightarrow> ndigits n \<le> k"
  using ndigits_le_iff [of n "k - 1"] by simp

text \<open>Rounding a positive coefficient.\<close>

lemma round_quotient:
  fixes c :: int
  assumes c: "0 < c" and sd: "0 < sd" and n: "sd < ndigits (nat c)"
  defines "k \<equiv> ndigits (nat c) - sd"
  defines "q \<equiv> (c + 5 * 10 ^ (k - 1)) div 10 ^ k"
  shows "c div 10 ^ k \<le> q" and "10 ^ (sd - 1) \<le> q"
proof -
  have k: "0 < k" using n by (simp add: k_def)
  show le: "c div 10 ^ k \<le> q"
    unfolding q_def by (rule zdiv_mono1) simp_all
  have "10 ^ (ndigits (nat c) - 1) \<le> nat c"
    using c by (intro ndigits_lower) simp
  then have "int (10 ^ (ndigits (nat c) - 1)) \<le> int (nat c)"
    by (simp only: of_nat_le_iff)
  then have low: "(10::int) ^ (ndigits (nat c) - 1) \<le> c"
    using c by simp
  have split: "ndigits (nat c) - 1 = (sd - 1) + k"
    using sd n by (simp add: k_def)
  have "(10::int) ^ (sd - 1) = (10 ^ (sd - 1) * 10 ^ k) div 10 ^ k"
    by simp
  also have "\<dots> \<le> c div 10 ^ k"
    using low unfolding split power_add by (intro zdiv_mono1) simp_all
  finally show "10 ^ (sd - 1) \<le> q"
    using le by simp
qed

lemma round_half_up_unchanged:
  "ndigits (nat \<bar>coef z\<bar>) \<le> sd \<Longrightarrow> round_half_up sd z = z"
  by (simp add: round_half_up_def)

lemma round_half_up_rounds:
  assumes "0 < coef z" and "sd < ndigits (nat (coef z))"
  shows "round_half_up sd z =
    Decimal ((coef z + 5 * 10 ^ (ndigits (nat (coef z)) - sd - 1)) div 10 ^ (ndigits (nat (coef z)) - sd))
      (expo z + int (ndigits (nat (coef z)) - sd))"
  using assms by (simp add: round_half_up_def Let_def)

lemma round_coef_pos:
  assumes c: "0 < coef z" and sd: "0 < sd"
  shows "0 < coef (round_half_up sd z)"
proof (cases "ndigits (nat (coef z)) \<le> sd")
  case True
  with c show ?thesis by (simp add: round_half_up_unchanged)
next
  case False
  then have n: "sd < ndigits (nat (coef z))" by simp
  have "(0::int) < 10 ^ (sd - 1)" by simp
  also note round_quotient(2) [OF c sd n]
  finally show ?thesis
    by (simp add: round_half_up_rounds [OF c n])
qed

lemma lead_round:
  assumes c: "0 < coef z" and sd: "0 < sd"
  shows "lead_exp z \<le> lead_exp (round_half_up sd z)"
proof (cases "ndigits (nat (coef z)) \<le> sd")
  case True
  with c show ?thesis by (simp add: round_half_up_unchanged)
next
  case False
  then have n: "sd < ndigits (nat (coef z))" by simp
  let ?k = "ndigits (nat (coef z)) - sd"
  let ?q = "(coef z + 5 * 10 ^ (?k - 1)) div 10 ^ ?k"
  have q: "10 ^ (sd - 1) \<le> ?q"
    by (rule round_quotient(2) [OF c sd n])
  then have qpos: "0 < ?q"
    by (rule less_le_trans [rotated]) simp
  from q have "int (10 ^ (sd - 1)) \<le> int (nat ?q)"
    using qpos by simp
  then have "10 ^ (sd - 1) \<le> nat ?q"
    by (simp only: of_nat_le_iff)
  then have "sd - 1 < ndigits (nat ?q)"
    by (rule ndigits_gt)
  with sd have "sd \<le> ndigits (nat ?q)"
    by linarith
  then show ?thesis
    using c n qpos by (simp add: round_half_up_rounds [OF c n] lead_exp_def)
qed

lemma int_div_less_mult: "0 < b \<Longrightarrow> (a::int) div b < c \<Longrightarrow> a < c * b"
  by (metis mult.commute zdiv_mono1 not_less nonzero_mult_div_cancel_right less_irrefl)

lemma floor_dec_value:
  "\<lfloor>dec_value z\<rfloor> =
     (if 0 \<le> expo z then coef z * 10 ^ nat (expo z) else coef z div 10 ^ nat (- expo z))"
  using spec_round_down_eq [of z 0] by (simp add: spec_round_down_def)

lemma spec_round_down_shift:
  "spec_round_down x d = \<lfloor>dec_value (Decimal (coef x) (int d + expo x))\<rfloor>"
  by (simp add: spec_round_down_eq floor_dec_value add.commute)

lemma truncated_pos:
  assumes "0 < coef z"
  shows "\<exists>t. truncated (Fin z) = Fin t \<and> 0 \<le> expo t \<and> 0 \<le> coef t \<and>
            integral_value t = \<lfloor>dec_value z\<rfloor> \<and> \<lfloor>dec_value t\<rfloor> = \<lfloor>dec_value z\<rfloor>"
proof (cases "0 \<le> expo z")
  case True
  with assms show ?thesis
    by (simp add: truncated_def integral_value_def floor_dec_value)
next
  case False
  with assms show ?thesis
    by (simp add: truncated_def integral_value_def floor_dec_value pos_imp_zdiv_nonneg_iff)
qed

lemma floor_nonneg: "0 \<le> coef z \<Longrightarrow> 0 \<le> \<lfloor>dec_value z\<rfloor>"
  by (simp add: floor_dec_value pos_imp_zdiv_nonneg_iff)

lemma lead_lt:
  assumes c: "0 < coef z" and v: "\<lfloor>dec_value z\<rfloor> < 10 ^ k"
  shows "lead_exp z < int k"
proof (cases "0 \<le> expo z")
  case True
  define s where "s = nat (expo z)"
  have es: "expo z = int s" using True by (simp add: s_def)
  from v True have prod: "coef z * 10 ^ s < 10 ^ k"
    by (simp add: floor_dec_value s_def)
  have "(10::int) ^ s \<le> coef z * 10 ^ s"
    using c by (simp add: mult_le_cancel_right1)
  with prod have "(10::int) ^ s < 10 ^ k" by linarith
  then have sk: "s < k" by simp
  then have "coef z * 10 ^ s < 10 ^ (k - s) * 10 ^ s"
    using prod by (simp flip: power_add)
  then have "coef z < 10 ^ (k - s)" by simp
  then have "int (nat (coef z)) < int (10 ^ (k - s))" using c by simp
  then have "nat (coef z) < 10 ^ (k - s)" by (simp only: of_nat_less_iff)
  then have "ndigits (nat (coef z)) \<le> k - s"
    using sk by (intro ndigits_le_pow) simp_all
  then show ?thesis
    using c sk by (simp add: lead_exp_def es)
next
  case False
  define m where "m = nat (- expo z)"
  have em: "expo z = - int m" using False by (simp add: m_def)
  from v False have "coef z div 10 ^ m < 10 ^ k"
    by (simp add: floor_dec_value m_def)
  then have "coef z < 10 ^ k * 10 ^ m"
    by (intro int_div_less_mult) simp_all
  then have "coef z < 10 ^ (k + m)" by (simp add: power_add)
  then have "int (nat (coef z)) < int (10 ^ (k + m))" using c by simp
  then have "nat (coef z) < 10 ^ (k + m)" by (simp only: of_nat_less_iff)
  then have "ndigits (nat (coef z)) \<le> k + m"
    using False by (intro ndigits_le_pow) (simp_all add: m_def)
  then show ?thesis
    using c by (simp add: lead_exp_def em)
qed

lemma round_keeps_excess:
  assumes c: "0 < coef z" and sd: "0 < sd" and M: "M < 10 ^ sd"
    and v: "M < \<lfloor>dec_value z\<rfloor>"
  shows "M < \<lfloor>dec_value (round_half_up sd z)\<rfloor>"
proof (cases "ndigits (nat (coef z)) \<le> sd")
  case True
  with c v show ?thesis by (simp add: round_half_up_unchanged)
next
  case False
  then have n: "sd < ndigits (nat (coef z))" by simp
  define k where "k = ndigits (nat (coef z)) - sd"
  define q where "q = (coef z + 5 * 10 ^ (k - 1)) div 10 ^ k"
  have r: "round_half_up sd z = Decimal q (expo z + int k)"
    using round_half_up_rounds [OF c n] by (simp add: k_def q_def)
  have q1: "coef z div 10 ^ k \<le> q" and q2: "10 ^ (sd - 1) \<le> q"
    using round_quotient [OF c sd n] by (simp_all add: k_def q_def)
  have k: "0 < k" using n by (simp add: k_def)
  show ?thesis
  proof (cases "0 < expo z + int k")
    case True
    define S where "S = nat (expo z + int k)"
    have S: "0 < S" using True by (simp add: S_def)
    have "(10::int) ^ sd = 10 ^ (sd - 1) * 10"
      using sd by (cases sd) simp_all
    also have "\<dots> \<le> q * 10"
      using q2 by simp
    also have "\<dots> \<le> q * 10 ^ S"
    proof -
      have "(10::int) ^ 1 \<le> 10 ^ S"
        using S by (intro power_increasing) simp_all
      moreover have "0 \<le> q" using q2 by (rule order_trans [rotated]) simp
      ultimately show ?thesis by (simp add: mult_left_mono)
    qed
    finally have "10 ^ sd \<le> q * 10 ^ S" .
    with M have "M < q * 10 ^ S" by linarith
    then show ?thesis
      using True by (simp add: r floor_dec_value S_def)
  next
    case False
    define m where "m = nat (- (expo z + int k))"
    have ez: "expo z = - int (k + m)"
      using False by (simp add: m_def)
    have vz: "\<lfloor>dec_value z\<rfloor> = coef z div 10 ^ (k + m)"
      using k by (simp add: floor_dec_value ez nat_int_add add.commute)
    also have "\<dots> = (coef z div 10 ^ k) div 10 ^ m"
      by (simp add: power_add zdiv_zmult2_eq)
    also have "\<dots> \<le> q div 10 ^ m"
      using q1 by (intro zdiv_mono1) simp_all
    finally have le: "\<lfloor>dec_value z\<rfloor> \<le> q div 10 ^ m" .
    have "\<lfloor>dec_value (round_half_up sd z)\<rfloor> = q div 10 ^ m"
    proof (cases "m = 0")
      case True
      then have "expo z + int k = 0" using False by (simp add: m_def)
      with True show ?thesis by (simp add: r floor_dec_value)
    next
      case nz: False
      then have "\<not> 0 \<le> expo z + int k" by (simp add: m_def)
      then show ?thesis by (simp add: r floor_dec_value m_def)
    qed
    with le v show ?thesis by simp
  qed
qed

lemma ndigits_one: "ndigits (Suc 0) = 1"
  by (subst ndigits.simps) simp

lemma minE_le_maxE: "minE < 0" "0 < maxE"
  by (simp_all add: minE_def maxE_def)

lemma new_Dec_pos:
  "0 < coef x \<Longrightarrow> minE \<le> lead_exp x \<Longrightarrow>
   new_Dec (Fin x) = (if maxE < lead_exp x then PosInf else Fin x)"
  by (simp add: new_Dec_def check_range_def)

lemma Ten_pow_eq:
  "Ten_pow d = (if maxE < int d then PosInf else Fin (Decimal 1 (int d)))"
  using minE_le_maxE by (simp add: Ten_pow_def check_range_def lead_exp_def ndigits_one)

lemma finalise_pos:
  assumes c: "0 < coef z" and sd: "0 < sd" and lo: "minE \<le> lead_exp z"
  shows "finalise sd z =
     (if maxE < lead_exp (round_half_up sd z) then PosInf else Fin (round_half_up sd z))"
proof -
  have "0 < coef (round_half_up sd z)"
    by (rule round_coef_pos [OF c sd])
  moreover have "minE \<le> lead_exp (round_half_up sd z)"
    using lo lead_round [OF c sd] by linarith
  ultimately show ?thesis
    by (simp add: finalise_def check_range_def)
qed

lemma scaled_overflow:
  "makeToScaledBigUint params PosInf d = Inl IntegerOutOfRange"
  by (simp add: makeToScaledBigUint_def new_Dec_def isZero_def isNeg_def Ten_pow_eq mul_def
      truncated_def greaterThan_int_def Let_def)

lemma scaled_general:
  assumes c: "0 < coef x" and lo: "minE \<le> lead_exp x" and p: "0 < precision params"
  shows "makeToScaledBigUint params (Fin x) d =
     (if maxE < lead_exp x \<or> maxE < int d \<or>
         maxE < lead_exp (round_half_up (precision params) (Decimal (coef x) (int d + expo x)))
      then Inl IntegerOutOfRange
      else if \<lfloor>dec_value (round_half_up (precision params) (Decimal (coef x) (int d + expo x)))\<rfloor> = 0
      then Inl PrecisionLoss
      else if 2 ^ bits params - 1 <
          \<lfloor>dec_value (round_half_up (precision params) (Decimal (coef x) (int d + expo x)))\<rfloor>
      then Inl IntegerOutOfRange
      else toBigInt (exponent params)
          (truncated (Fin (round_half_up (precision params) (Decimal (coef x) (int d + expo x))))))"
proof -
  let ?z = "Decimal (coef x) (int d + expo x)"
  let ?r = "round_half_up (precision params) ?z"
  have zc: "0 < coef ?z" using c by simp
  have zl: "minE \<le> lead_exp ?z" using lo by (simp add: lead_exp_def)
  note fin = finalise_pos [OF zc p zl]
  have rc: "0 < coef ?r" by (rule round_coef_pos [OF zc p])
  from truncated_pos [OF rc] obtain t where
    t: "truncated (Fin ?r) = Fin t" and tc: "0 \<le> coef t"
    and tv: "integral_value t = \<lfloor>dec_value ?r\<rfloor>" and te: "0 \<le> expo t"
    by blast
  have "coef t = 0 \<longleftrightarrow> integral_value t = 0"
    by (simp add: integral_value_def)
  then have tz: "coef t = 0 \<longleftrightarrow> \<lfloor>dec_value ?r\<rfloor> = 0"
    unfolding tv .
  show ?thesis
  proof (cases "maxE < lead_exp x")
    case True
    with c lo show ?thesis
      by (simp add: makeToScaledBigUint_def new_Dec_pos isZero_def isNeg_def Ten_pow_eq mul_def
          truncated_def greaterThan_int_def Let_def)
  next
    case x_ok: False
    show ?thesis
    proof (cases "maxE < int d")
      case True
      with c lo x_ok show ?thesis
        by (simp add: makeToScaledBigUint_def new_Dec_pos isZero_def isNeg_def Ten_pow_eq mul_def
            truncated_def greaterThan_int_def Let_def)
    next
      case d_ok: False
      have dec: "new_Dec (Fin x) = Fin x"
        using c lo x_ok by (simp add: new_Dec_pos)
      have m: "mul (precision params) (Ten_pow d) (Fin x) =
          (if maxE < lead_exp ?r then PosInf else Fin ?r)"
        using c d_ok by (simp add: Ten_pow_eq mul_def fin)
      show ?thesis
      proof (cases "maxE < lead_exp ?r")
        case True
        with c show ?thesis
          by (simp add: makeToScaledBigUint_def dec m isZero_def isNeg_def
              truncated_def greaterThan_int_def Let_def)
      next
        case False
        with c x_ok d_ok show ?thesis
          by (simp add: makeToScaledBigUint_def dec m t tz tv isZero_def isNeg_def
              greaterThan_int_def Let_def push_bit_eq_mult)
      qed
    qed
  qed
qed

lemma toBigInt_truncated:
  assumes "0 < coef r" and "toBigInt e (truncated (Fin r)) = Inr v"
  shows "v = \<lfloor>dec_value r\<rfloor>"
proof -
  from truncated_pos [OF assms(1)] obtain t where
    "truncated (Fin r) = Fin t" and "integral_value t = \<lfloor>dec_value r\<rfloor>"
    by blast
  with assms(2) show ?thesis
    by (auto simp: toBigInt_def split: if_splits)
qed

lemma scaled_underflow:
  "underflows x \<Longrightarrow> makeToScaledBigUint params (Fin x) d = Inr 0"
  using minE_le_maxE
  by (simp add: underflows_def makeToScaledBigUint_def new_Dec_def check_range_def isZero_def
      Let_def)

lemma scaled_zero:
  "coef x = 0 \<Longrightarrow> makeToScaledBigUint params (Fin x) d = Inr 0"
  by (simp add: makeToScaledBigUint_def new_Dec_def check_range_def isZero_def Let_def)

lemma scaled_negative:
  "coef x < 0 \<Longrightarrow> \<not> underflows x \<Longrightarrow>
   makeToScaledBigUint params (Fin x) d = Inl NumberIsNegative"
  by (simp add: underflows_def makeToScaledBigUint_def new_Dec_def check_range_def isZero_def
      isNeg_def Let_def)

lemma mul_NaN: "mul prec a NaN = NaN"
  by (cases a) (simp_all add: mul_def)

lemma scaled_NaN: "makeToScaledBigUint params NaN d = Inl BigIntSyntaxError"
  by (simp add: makeToScaledBigUint_def new_Dec_def isZero_def isNeg_def mul_NaN
      truncated_def greaterThan_int_def toBigInt_def Let_def)

lemma scaled_NegInf: "makeToScaledBigUint params NegInf d = Inl NumberIsNegative"
  by (simp add: makeToScaledBigUint_def new_Dec_def isZero_def isNeg_def Let_def)

lemma scaled_range:
  assumes p: "0 < precision params" and r: "makeToScaledBigUint params y d = Inr v"
  shows "0 \<le> v \<and> v \<le> 2 ^ bits params - 1"
proof (cases y)
  case (Fin x)
  consider "coef x = 0" | "underflows x" | "coef x < 0" "\<not> underflows x"
    | "0 < coef x" "\<not> underflows x"
    by fastforce
  then show ?thesis
  proof cases
    case 1
    with r Fin show ?thesis by (simp add: scaled_zero)
  next
    case 2
    with r Fin show ?thesis by (simp add: scaled_underflow)
  next
    case 3
    with r Fin show ?thesis by (simp add: scaled_negative)
  next
    case 4
    then have lo: "minE \<le> lead_exp x" by (simp add: underflows_def)
    let ?r = "round_half_up (precision params) (Decimal (coef x) (int d + expo x))"
    have rc: "0 < coef ?r"
      using 4(1) p by (intro round_coef_pos) simp_all
    from r Fin have e: "makeToScaledBigUint params (Fin x) d = Inr v" by simp
    note g = e [unfolded scaled_general [OF 4(1) lo p]]
    from g have big: "toBigInt (exponent params) (truncated (Fin ?r)) = Inr v"
      and le: "\<not> 2 ^ bits params - 1 < \<lfloor>dec_value ?r\<rfloor>"
      by (simp_all split: if_splits)
    from toBigInt_truncated [OF rc big] have v: "v = \<lfloor>dec_value ?r\<rfloor>" .
    have "0 \<le> \<lfloor>dec_value ?r\<rfloor>"
      using rc by (intro floor_nonneg) simp
    with v le show ?thesis by simp
  qed
next
  case PosInf
  with r show ?thesis by (simp add: scaled_overflow)
next
  case NegInf
  with r show ?thesis by (simp add: scaled_NegInf)
next
  case NaN
  with r show ?thesis by (simp add: scaled_NaN)
qed

lemma scaled_zero_iff:
  assumes p: "0 < precision params" and u: "\<not> underflows x"
  shows "makeToScaledBigUint params (Fin x) d = Inr 0 \<longleftrightarrow> coef x = 0"
proof
  assume r: "makeToScaledBigUint params (Fin x) d = Inr 0"
  show "coef x = 0"
  proof (rule ccontr)
    assume nz: "coef x \<noteq> 0"
    show False
    proof (cases "coef x < 0")
      case True
      with r u show False by (simp add: scaled_negative)
    next
      case False
      with nz have c: "0 < coef x" by simp
      from u nz have lo: "minE \<le> lead_exp x" by (simp add: underflows_def)
      let ?r = "round_half_up (precision params) (Decimal (coef x) (int d + expo x))"
      have rc: "0 < coef ?r"
        using c p by (intro round_coef_pos) simp_all
      note g = r [unfolded scaled_general [OF c lo p]]
      from g have big: "toBigInt (exponent params) (truncated (Fin ?r)) = Inr 0"
        and nz': "\<lfloor>dec_value ?r\<rfloor> \<noteq> 0"
        by (simp_all split: if_splits)
      from toBigInt_truncated [OF rc big] nz' show False by simp
    qed
  qed
next
  assume "coef x = 0"
  then show "makeToScaledBigUint params (Fin x) d = Inr 0"
    by (rule scaled_zero)
qed

lemma scaled_out_of_range:
  assumes c: "0 < coef x" and u: "\<not> underflows x" and p: "0 < precision params"
    and fit: "(2::int) ^ bits params \<le> 10 ^ precision params"
    and big: "2 ^ bits params - 1 < spec_round_down x d"
  shows "makeToScaledBigUint params (Fin x) d = Inl IntegerOutOfRange"
proof -
  from u c have lo: "minE \<le> lead_exp x" by (simp add: underflows_def)
  let ?z = "Decimal (coef x) (int d + expo x)"
  let ?r = "round_half_up (precision params) ?z"
  have zc: "0 < coef ?z" using c by simp
  have M: "(2::int) ^ bits params - 1 < 10 ^ precision params"
    using fit by linarith
  have v: "2 ^ bits params - 1 < \<lfloor>dec_value ?z\<rfloor>"
    using big by (simp only: spec_round_down_shift)
  from round_keeps_excess [OF zc p M v]
  have ex: "2 ^ bits params - 1 < \<lfloor>dec_value ?r\<rfloor>" .
  have "(0::int) \<le> 2 ^ bits params - 1" by simp
  with ex have nz: "\<lfloor>dec_value ?r\<rfloor> \<noteq> 0" by linarith
  show ?thesis
    unfolding scaled_general [OF c lo p] using ex nz by simp
qed

lemma scaled_exact:
  assumes c: "0 < coef x" and u: "\<not> underflows x" and d: "int d \<le> maxE"
    and digits: "ndigits (nat \<bar>coef x\<bar>) \<le> precision params"
    and fit: "(2::int) ^ bits params \<le> 10 ^ precision params"
    and pe: "precision params \<le> exponent params"
    and em: "int (exponent params) \<le> maxE"
    and le: "spec_round_down x d \<le> 2 ^ bits params - 1"
  shows "makeToScaledBigUint params (Fin x) d =
     (if spec_round_down x d = 0 then Inl PrecisionLoss else Inr (spec_round_down x d))"
proof -
  from u c have lo: "minE \<le> lead_exp x" by (simp add: underflows_def)
  have p: "0 < precision params"
    using digits ndigits_pos [of "nat \<bar>coef x\<bar>"] by linarith
  let ?z = "Decimal (coef x) (int d + expo x)"
  have zc: "0 < coef ?z" using c by simp
  have r: "round_half_up (precision params) ?z = ?z"
    using digits by (intro round_half_up_unchanged) simp
  have zv: "\<lfloor>dec_value ?z\<rfloor> = spec_round_down x d"
    by (simp only: spec_round_down_shift)
  have lt: "spec_round_down x d < 10 ^ precision params"
    using le fit by linarith
  from lead_lt [OF zc] lt zv have zl: "lead_exp ?z < int (precision params)"
    by simp
  with pe em have zm: "\<not> maxE < lead_exp ?z" by linarith
  have "lead_exp x \<le> lead_exp ?z" by (simp add: lead_exp_def)
  with zm have xm: "\<not> maxE < lead_exp x" by linarith
  from truncated_pos [OF zc] obtain t where
    t: "truncated (Fin ?z) = Fin t" and tc: "0 \<le> coef t"
    and tv: "integral_value t = \<lfloor>dec_value ?z\<rfloor>"
    and tf: "\<lfloor>dec_value t\<rfloor> = \<lfloor>dec_value ?z\<rfloor>"
    by blast
  have big: "toBigInt (exponent params) (Fin t) = Inr (spec_round_down x d)"
    if nz: "spec_round_down x d \<noteq> 0"
  proof -
    have "coef t \<noteq> 0"
      using nz tv zv by (auto simp: integral_value_def)
    with tc have tpos: "0 < coef t" by simp
    from lead_lt [OF tpos] lt tf zv have "lead_exp t < int (precision params)"
      by simp
    with pe have "\<not> int (exponent params) \<le> lead_exp t" by linarith
    then show ?thesis
      by (simp add: toBigInt_def tv zv)
  qed
  show ?thesis
    unfolding scaled_general [OF c lo p] r
    using xm zm d le big by (simp add: zv t)
qed

lemma fits64: "(2::int) ^ 64 \<le> 10 ^ 20" and fits128: "(2::int) ^ 128 \<le> 10 ^ 40"
  by simp_all

lemma maxE_large: "28 \<le> maxE" "56 \<le> maxE"
  by (simp_all add: maxE_def)

text \<open>
  C1 (as amended). For every input and every count of decimals, a value that either
  conversion returns lies in \<open>[0, 2^width - 1]\<close>. A decimal input below the exponent
  range of the decimal library (not zero, leading exponent below \<open>-9 * 10^15\<close>) is
  read as zero and converts to 0. For every other decimal input \<open>x\<close>: the conversion
  fails with the negative-number error when \<open>x\<close> is negative; it returns zero exactly
  when \<open>x\<close> is zero; and it fails with the out-of-range error when \<open>x\<close> is positive and
  \<open>round_down(x * 10^d)\<close> exceeds \<open>2^width - 1\<close>. If moreover \<open>x\<close> is positive with at
  most 20 significant digits (\<open>toScaledU64\<close>) or 40 significant digits
  (\<open>toScaledU128\<close>), the working precision of the conversion, and \<open>d\<close> is at most
  \<open>9 * 10^15\<close>, then the conversion fails with the precision-loss error when
  \<open>round_down(x * 10^d)\<close> is zero, and returns exactly \<open>round_down(x * 10^d)\<close> when
  that is positive and at most \<open>2^width - 1\<close>. (With more digits the product is
  first rounded half up to the working precision, see the counterexample below the
  witness.)
\<close>

theorem toScaled_spec:
  "(toScaledU64 y d = Inr v \<longrightarrow> 0 \<le> v \<and> v \<le> 2 ^ 64 - 1) \<and>
   (toScaledU128 y d = Inr v \<longrightarrow> 0 \<le> v \<and> v \<le> 2 ^ 128 - 1) \<and>
   (underflows x \<longrightarrow> toScaledU64 (Fin x) d = Inr 0 \<and> toScaledU128 (Fin x) d = Inr 0) \<and>
   (\<not> underflows x \<longrightarrow>
      (dec_value x < 0 \<longrightarrow>
         toScaledU64 (Fin x) d = Inl NumberIsNegative \<and>
         toScaledU128 (Fin x) d = Inl NumberIsNegative) \<and>
      (toScaledU64 (Fin x) d = Inr 0 \<longleftrightarrow> dec_value x = 0) \<and>
      (toScaledU128 (Fin x) d = Inr 0 \<longleftrightarrow> dec_value x = 0) \<and>
      (0 < dec_value x \<and> spec_round_down x d > 2 ^ 64 - 1 \<longrightarrow>
         toScaledU64 (Fin x) d = Inl IntegerOutOfRange) \<and>
      (0 < dec_value x \<and> spec_round_down x d > 2 ^ 128 - 1 \<longrightarrow>
         toScaledU128 (Fin x) d = Inl IntegerOutOfRange)) \<and>
   (\<not> underflows x \<and> 0 < dec_value x \<and> int d \<le> maxE \<and> ndigits (nat \<bar>coef x\<bar>) \<le> 20 \<longrightarrow>
      (spec_round_down x d = 0 \<longrightarrow> toScaledU64 (Fin x) d = Inl PrecisionLoss) \<and>
      (spec_round_down x d \<noteq> 0 \<and> spec_round_down x d \<le> 2 ^ 64 - 1 \<longrightarrow>
         toScaledU64 (Fin x) d = Inr (spec_round_down x d))) \<and>
   (\<not> underflows x \<and> 0 < dec_value x \<and> int d \<le> maxE \<and> ndigits (nat \<bar>coef x\<bar>) \<le> 40 \<longrightarrow>
      (spec_round_down x d = 0 \<longrightarrow> toScaledU128 (Fin x) d = Inl PrecisionLoss) \<and>
      (spec_round_down x d \<noteq> 0 \<and> spec_round_down x d \<le> 2 ^ 128 - 1 \<longrightarrow>
         toScaledU128 (Fin x) d = Inr (spec_round_down x d)))"
proof -
  let ?p64 = "\<lparr>precision = 20, exponent = 28, bits = 64\<rparr>"
  let ?p128 = "\<lparr>precision = 40, exponent = 56, bits = 128\<rparr>"
  have range64: "0 \<le> v \<and> v \<le> 2 ^ 64 - 1" if "toScaledU64 y d = Inr v"
    using that scaled_range [of ?p64 y d v] by (simp add: toScaledU64_def)
  have range128: "0 \<le> v \<and> v \<le> 2 ^ 128 - 1" if "toScaledU128 y d = Inr v"
    using that scaled_range [of ?p128 y d v] by (simp add: toScaledU128_def)
  have under: "toScaledU64 (Fin x) d = Inr 0 \<and> toScaledU128 (Fin x) d = Inr 0"
    if "underflows x"
    using that by (simp add: toScaledU64_def toScaledU128_def scaled_underflow)
  have neg: "toScaledU64 (Fin x) d = Inl NumberIsNegative \<and>
      toScaledU128 (Fin x) d = Inl NumberIsNegative"
    if "\<not> underflows x" and "dec_value x < 0"
    using that by (simp add: toScaledU64_def toScaledU128_def dec_value_sign scaled_negative)
  have z64: "toScaledU64 (Fin x) d = Inr 0 \<longleftrightarrow> dec_value x = 0" if "\<not> underflows x"
    using that scaled_zero_iff [of ?p64 x d] by (simp add: toScaledU64_def dec_value_sign)
  have z128: "toScaledU128 (Fin x) d = Inr 0 \<longleftrightarrow> dec_value x = 0" if "\<not> underflows x"
    using that scaled_zero_iff [of ?p128 x d] by (simp add: toScaledU128_def dec_value_sign)
  have o64: "toScaledU64 (Fin x) d = Inl IntegerOutOfRange"
    if "\<not> underflows x" and "0 < dec_value x" and "spec_round_down x d > 2 ^ 64 - 1"
    using that scaled_out_of_range [of x ?p64 d] by (simp add: toScaledU64_def dec_value_sign)
  have o128: "toScaledU128 (Fin x) d = Inl IntegerOutOfRange"
    if "\<not> underflows x" and "0 < dec_value x" and "spec_round_down x d > 2 ^ 128 - 1"
    using that scaled_out_of_range [of x ?p128 d] by (simp add: toScaledU128_def dec_value_sign)
  have e64: "toScaledU64 (Fin x) d =
      (if spec_round_down x d = 0 then Inl PrecisionLoss else Inr (spec_round_down x d))"
    if "\<not> underflows x" and "0 < dec_value x" and "int d \<le> maxE"
      and "ndigits (nat \<bar>coef x\<bar>) \<le> 20" and "spec_round_down x d \<le> 2 ^ 64 - 1"
    using that scaled_exact [of x d ?p64] maxE_large
    by (simp add: toScaledU64_def dec_value_sign)
  have e128: "toScaledU128 (Fin x) d =
      (if spec_round_down x d = 0 then Inl PrecisionLoss else Inr (spec_round_down x d))"
    if "\<not> underflows x" and "0 < dec_value x" and "int d \<le> maxE"
      and "ndigits (nat \<bar>coef x\<bar>) \<le> 40" and "spec_round_down x d \<le> 2 ^ 128 - 1"
    using that scaled_exact [of x d ?p128] maxE_large
    by (simp add: toScaledU128_def dec_value_sign)
  have c64: "(spec_round_down x d = 0 \<longrightarrow> toScaledU64 (Fin x) d = Inl PrecisionLoss) \<and>
      (spec_round_down x d \<noteq> 0 \<and> spec_round_down x d \<le> 2 ^ 64 - 1 \<longrightarrow>
         toScaledU64 (Fin x) d = Inr (spec_round_down x d))"
    if "\<not> underflows x" and "0 < dec_value x" and "int d \<le> maxE"
      and "ndigits (nat \<bar>coef x\<bar>) \<le> 20"
    using e64 [OF that] by simp
  have c128: "(spec_round_down x d = 0 \<longrightarrow> toScaledU128 (Fin x) d = Inl PrecisionLoss) \<and>
      (spec_round_down x d \<noteq> 0 \<and> spec_round_down x d \<le> 2 ^ 128 - 1 \<longrightarrow>
         toScaledU128 (Fin x) d = Inr (spec_round_down x d))"
    if "\<not> underflows x" and "0 < dec_value x" and "int d \<le> maxE"
      and "ndigits (nat \<bar>coef x\<bar>) \<le> 40"
    using e128 [OF that] by simp
  from range64 range128 under neg z64 z128 o64 o128 c64 c128 show ?thesis
    by blast
qed

lemma lead_exp_eval:
  "10 ^ k \<le> nat \<bar>c\<bar> \<Longrightarrow> nat \<bar>c\<bar> < 10 ^ Suc k \<Longrightarrow> lead_exp (Decimal c e) = e + int k"
  by (simp add: lead_exp_def ndigits_eqI)

lemma not_underflows_eval:
  "10 ^ k \<le> nat \<bar>c\<bar> \<Longrightarrow> nat \<bar>c\<bar> < 10 ^ Suc k \<Longrightarrow> minE \<le> e + int k \<Longrightarrow>
   \<not> underflows (Decimal c e)"
  by (simp add: underflows_def lead_exp_eval)

theorem toScaled_spec_witness:
  "\<not> underflows (Decimal 12345 (- 2)) \<and> 0 < dec_value (Decimal 12345 (- 2)) \<and>
   int 3 \<le> maxE \<and> ndigits (nat \<bar>coef (Decimal 12345 (- 2))\<bar>) \<le> 20 \<and>
   spec_round_down (Decimal 12345 (- 2)) 3 = 123450 \<and>
   toScaledU64 (Fin (Decimal 12345 (- 2))) 3 = Inr 123450 \<and>
   \<not> underflows (Decimal 1 (- 1)) \<and> spec_round_down (Decimal 1 (- 1)) 0 = 0 \<and>
   toScaledU64 (Fin (Decimal 1 (- 1))) 0 = Inl PrecisionLoss \<and>
   \<not> underflows (Decimal (- 1) 0) \<and> dec_value (Decimal (- 1) 0) < 0 \<and>
   toScaledU64 (Fin (Decimal (- 1) 0)) 0 = Inl NumberIsNegative \<and>
   \<not> underflows (Decimal 184467440737095516165 (- 1)) \<and>
   spec_round_down (Decimal 184467440737095516165 (- 1)) 0 = 2 ^ 64 \<and>
   toScaledU64 (Fin (Decimal 184467440737095516165 (- 1))) 0 = Inl IntegerOutOfRange \<and>
   underflows (Decimal 1 (- 9000000000000001)) \<and>
   toScaledU64 (Fin (Decimal 1 (- 9000000000000001))) 0 = Inr 0"
proof -
  have u1: "\<not> underflows (Decimal 12345 (- 2))"
    by (rule not_underflows_eval [of 4]) (simp_all add: minE_def)
  have u2: "\<not> underflows (Decimal 1 (- 1))"
    by (rule not_underflows_eval [of 0]) (simp_all add: minE_def)
  have u3: "\<not> underflows (Decimal (- 1) 0)"
    by (rule not_underflows_eval [of 0]) (simp_all add: minE_def)
  have u4: "\<not> underflows (Decimal 184467440737095516165 (- 1))"
    by (rule not_underflows_eval [of 20]) (simp_all add: minE_def)
  have u5: "underflows (Decimal 1 (- 9000000000000001))"
    by (simp add: underflows_def lead_exp_eval [of 0] minE_def)
  have pos: "0 < dec_value (Decimal 12345 (- 2))" "0 < dec_value (Decimal 1 (- 1))"
    "0 < dec_value (Decimal 184467440737095516165 (- 1))"
    by (simp_all add: dec_value_sign)
  have neg: "dec_value (Decimal (- 1) 0) < 0"
    by (simp add: dec_value_sign)
  have dm: "int 3 \<le> maxE" "int 0 \<le> maxE"
    by (simp_all add: maxE_def)
  have dg: "ndigits (nat \<bar>coef (Decimal 12345 (- 2))\<bar>) \<le> 20"
    "ndigits (nat \<bar>coef (Decimal 1 (- 1))\<bar>) \<le> 20"
    using ndigits_le_iff [of 12345 19] ndigits_le_iff [of 1 19] by simp_all
  have v: "spec_round_down (Decimal 12345 (- 2)) 3 = 123450"
    "spec_round_down (Decimal 1 (- 1)) 0 = 0"
    "spec_round_down (Decimal 184467440737095516165 (- 1)) 0 = 2 ^ 64"
    by (simp_all add: spec_round_down_eq)
  from toScaled_spec [of _ 3 _ "Decimal 12345 (- 2)"] u1 pos(1) dm(1) dg(1) v(1)
  have r1: "toScaledU64 (Fin (Decimal 12345 (- 2))) 3 = Inr 123450"
    by simp
  from toScaled_spec [of _ 0 _ "Decimal 1 (- 1)"] u2 pos(2) dm(2) dg(2) v(2)
  have r2: "toScaledU64 (Fin (Decimal 1 (- 1))) 0 = Inl PrecisionLoss"
    by simp
  from toScaled_spec [of _ 0 _ "Decimal (- 1) 0"] u3 neg
  have r3: "toScaledU64 (Fin (Decimal (- 1) 0)) 0 = Inl NumberIsNegative"
    by simp
  from toScaled_spec [of _ 0 _ "Decimal 184467440737095516165 (- 1)"] u4 pos(3) v(3)
  have r4: "toScaledU64 (Fin (Decimal 184467440737095516165 (- 1))) 0 = Inl IntegerOutOfRange"
    by simp
  from toScaled_spec [of _ 0 _ "Decimal 1 (- 9000000000000001)"] u5
  have r5: "toScaledU64 (Fin (Decimal 1 (- 9000000000000001))) 0 = Inr 0"
    by simp
  from u1 u2 u3 u4 u5 pos neg dm dg v r1 r2 r3 r4 r5 show ?thesis
    by simp
qed

text \<open>
  Two inputs on which the claim fails as it is stated. The input
  \<open>0.999999999999999999999\<close> (21 digits) with no decimals is not zero and rounds down
  to zero, yet the 64-bit conversion returns 1, because the product is rounded to 20
  significant digits before it is truncated. The input \<open>1e-9000000000000001\<close> is not
  zero, yet the conversion returns 0 without a precision-loss error, because the
  library reads it as zero.
\<close>

lemma ndigits_21_nines: "ndigits 999999999999999999999 = 21"
  using ndigits_eqI [of 20 999999999999999999999] by simp

theorem toScaledU64_rounds_up_counterexample:
  "dec_value (Decimal 999999999999999999999 (- 21)) \<noteq> 0 \<and>
   spec_round_down (Decimal 999999999999999999999 (- 21)) 0 = 0 \<and>
   toScaledU64 (Fin (Decimal 999999999999999999999 (- 21))) 0 = Inr 1 \<and>
   dec_value (Decimal 1 (- 9000000000000001)) \<noteq> 0 \<and>
   toScaledU64 (Fin (Decimal 1 (- 9000000000000001))) 0 = Inr 0 \<and>
   toScaledU64 (Fin (Decimal 1 (- 9000000000000001))) 0 \<noteq> Inl PrecisionLoss"
proof -
  let ?x = "Decimal 999999999999999999999 (- 21)"
  have nz: "dec_value ?x \<noteq> 0" "dec_value (Decimal 1 (- 9000000000000001)) \<noteq> 0"
    by (simp_all add: dec_value_sign)
  have v: "spec_round_down ?x 0 = 0"
    by (simp add: spec_round_down_eq)
  have dec: "new_Dec (Fin ?x) = Fin ?x"
    by (simp add: new_Dec_def check_range_def lead_exp_eval [of 20] minE_def maxE_def)
  have rr: "round_half_up 20 ?x = Decimal 100000000000000000000 (- 20)"
    by (simp add: round_half_up_def ndigits_21_nines)
  have m: "mul 20 (Ten_pow 0) (Fin ?x) = Fin (Decimal 100000000000000000000 (- 20))"
    by (simp add: Ten_pow_eq maxE_def mul_def finalise_def rr check_range_def
        lead_exp_eval [of 20] minE_def)
  have t: "truncated (Fin (Decimal 100000000000000000000 (- 20))) = Fin (Decimal 1 0)"
    by (simp add: truncated_def)
  have b: "toBigInt 28 (Fin (Decimal 1 0)) = Inr 1"
    by (simp add: toBigInt_def lead_exp_eval [of 0] integral_value_def)
  have r: "toScaledU64 (Fin ?x) 0 = Inr 1"
    by (simp add: toScaledU64_def makeToScaledBigUint_def dec m t b isZero_def isNeg_def
        greaterThan_int_def integral_value_def)
  have u: "underflows (Decimal 1 (- 9000000000000001))"
    by (simp add: underflows_def lead_exp_eval [of 0] minE_def)
  then have r0: "toScaledU64 (Fin (Decimal 1 (- 9000000000000001))) 0 = Inr 0"
    by (simp add: toScaledU64_def scaled_underflow)
  from nz v r r0 show ?thesis by simp
qed

section \<open>Properties of the session builder\<close>

text \<open>
  C7. The CreateSession builder fails with a key-length error unless the user key has
  33 bytes (Secp256k1) and the session key has 32 bytes (Ed25519); a Bls12_381 key is
  rejected whatever its length. With valid keys, a supplied expiry that does not
  exceed \<open>currentTimestamp\<close> fails the assertion, a later one is used as it is, and
  without one the expiry is \<open>currentTimestamp + SESSION_TTL\<close>, where \<open>SESSION_TTL\<close> is
  \<open>10 * 60 * 1000 * 10000\<close>. A builder failure is the failure of \<open>createSessionImpl\<close>.
\<close>

theorem createSession_builder:
  "(length (userPubkey p) \<noteq> 33 \<longrightarrow> createSession_action ts n p = Inl Secp256k1Length) \<and>
   (length (userPubkey p) = 33 \<and> length (sessionPubkey p) \<noteq> 32 \<longrightarrow>
      createSession_action ts n p = Inl Ed25519Length) \<and>
   checkPubKeyLength Bls12_381 len = Inl Bls12_381NotAllowed \<and>
   (length (userPubkey p) = 33 \<and> length (sessionPubkey p) = 32 \<longrightarrow>
      (\<forall>e. expiryTimestamp p = Some e \<and> \<not> e > ts \<longrightarrow>
         createSession_action ts n p =
           Inl (AssertionViolated ''Cannot set expiry timestamp in the past'')) \<and>
      (\<forall>e. expiryTimestamp p = Some e \<and> e > ts \<longrightarrow>
         createSession_action ts n p =
           Inr \<lparr>currentTimestamp = ts, nonce = n,
                kind = CreateSession \<lparr>cs_userPubkey = userPubkey p,
                  cs_blstPubkey = sessionPubkey p, cs_expiryTimestamp = e\<rparr>\<rparr>) \<and>
      (expiryTimestamp p = None \<longrightarrow>
         createSession_action ts n p =
           Inr \<lparr>currentTimestamp = ts, nonce = n,
                kind = CreateSession \<lparr>cs_userPubkey = userPubkey p,
                  cs_blstPubkey = sessionPubkey p,
                  cs_expiryTimestamp = ts + SESSION_TTL\<rparr>\<rparr>)) \<and>
   SESSION_TTL = 10 * 60 * 1000 * 10000 \<and>
   (\<forall>e. createSession_action ts n p = Inl e \<longrightarrow>
      createSessionImpl pr sendFn walletSignFn ts n p = Inl e)"
  by (simp add: createSession_action_def createSessionImpl_def checkPubKeyLength_def assert_def
      SESSION_TTL_def)

theorem createSession_builder_witness:
  "length (userPubkey \<lparr>userPubkey = replicate 33 1, sessionPubkey = replicate 32 2,
      expiryTimestamp = None\<rparr>) = 33 \<and>
   length (sessionPubkey \<lparr>userPubkey = replicate 33 1, sessionPubkey = replicate 32 2,
      expiryTimestamp = None\<rparr>) = 32 \<and>
   createSession_action 1000 0
     \<lparr>userPubkey = replicate 33 1, sessionPubkey = replicate 32 2, expiryTimestamp = None\<rparr> =
     Inr \<lparr>currentTimestamp = 1000, nonce = 0,
          kind = CreateSession \<lparr>cs_userPubkey = replicate 33 1,
            cs_blstPubkey = replicate 32 2, cs_expiryTimestamp = 6000001000\<rparr>\<rparr> \<and>
   createSession_action 1000 0
     \<lparr>userPubkey = replicate 33 1, sessionPubkey = replicate 32 2, expiryTimestamp = Some 1000\<rparr> =
     Inl (AssertionViolated ''Cannot set expiry timestamp in the past'') \<and>
   createSession_action 1000 0
     \<lparr>userPubkey = replicate 32 1, sessionPubkey = replicate 32 2, expiryTimestamp = None\<rparr> =
     Inl Secp256k1Length"
  using createSession_builder [of "\<lparr>userPubkey = replicate 33 1, sessionPubkey = replicate 32 2,
      expiryTimestamp = None\<rparr>" 1000 0]
    createSession_builder [of "\<lparr>userPubkey = replicate 33 1, sessionPubkey = replicate 32 2,
      expiryTimestamp = Some 1000\<rparr>" 1000 0]
    createSession_builder [of "\<lparr>userPubkey = replicate 32 1, sessionPubkey = replicate 32 2,
      expiryTimestamp = None\<rparr>" 1000 0]
  by (simp add: SESSION_TTL_def)

section \<open>Properties of the nonce counter\<close>

text \<open>
  C9. A \<open>getNonce\<close> call whose timestamp equals the stored \<open>lastTs\<close> returns
  \<open>lastNonce + 1\<close>; a call with another timestamp stores it, resets the counter and
  returns 0. Hence a second call in the same tick returns the first nonce plus one,
  and a call in a new tick returns 0.
\<close>

theorem getNonce_spec:
  "(of_int now / 1000 = lastTs u \<longrightarrow>
      getNonce now u = (lastNonce u + 1, u\<lparr>lastNonce := lastNonce u + 1\<rparr>)) \<and>
   (of_int now / 1000 \<noteq> lastTs u \<longrightarrow>
      getNonce now u = (0, u\<lparr>lastTs := of_int now / 1000, lastNonce := 0\<rparr>)) \<and>
   fst (getNonce now (snd (getNonce now u))) = fst (getNonce now u) + 1 \<and>
   fst (getNonce now u) < fst (getNonce now (snd (getNonce now u))) \<and>
   (now' \<noteq> now \<longrightarrow> fst (getNonce now' (snd (getNonce now u))) = 0)"
  by (simp add: getNonce_def Let_def)

theorem getNonce_spec_witness:
  "of_int 5000 / 1000 = lastTs \<lparr>lastTs = 5, lastNonce = 7\<rparr> \<and>
   getNonce 5000 \<lparr>lastTs = 5, lastNonce = 7\<rparr> = (8, \<lparr>lastTs = 5, lastNonce = 8\<rparr>) \<and>
   of_int 5001 / 1000 \<noteq> lastTs \<lparr>lastTs = 5, lastNonce = 7\<rparr> \<and>
   getNonce 5001 \<lparr>lastTs = 5, lastNonce = 7\<rparr> = (0, \<lparr>lastTs = 5001 / 1000, lastNonce = 0\<rparr>) \<and>
   (5001::int) \<noteq> 5000 \<and>
   fst (getNonce 5001 (snd (getNonce 5000 \<lparr>lastTs = 5, lastNonce = 7\<rparr>))) = 0"
  using getNonce_spec [of 5000 "\<lparr>lastTs = 5, lastNonce = 7\<rparr>" 5001]
    getNonce_spec [of 5001 "\<lparr>lastTs = 5, lastNonce = 7\<rparr>" 5000]
  by (simp add: getNonce_def)

section \<open>Varints\<close>

text \<open>Reading a written length gives the length back, for every length below \<open>2^28\<close>.\<close>

lemma cont_bit_set:
  "n < 8 \<Longrightarrow> (word_of_nat ((v AND mask n) OR 2 ^ n) :: 8 word) AND 2 ^ n \<noteq> 0"
  by (simp add: and_exp_eq_0_iff_not_bit bit_simps)

lemma cont_payload:
  "n < 8 \<Longrightarrow> (word_of_nat ((v AND mask n) OR 2 ^ n) :: 8 word) AND mask n = word_of_nat (take_bit n v)"
  by (rule bit_word_eqI) (auto simp add: bit_simps)

lemma last_bit_clear:
  "n < 8 \<Longrightarrow> x < 2 ^ n \<Longrightarrow> (word_of_nat x :: 8 word) AND 2 ^ n = 0"
proof -
  assume "n < 8" "x < 2 ^ n"
  then have "take_bit n x = x" by (simp add: take_bit_nat_eq_self_iff)
  then have "\<not> bit x n" by (metis bit_take_bit_iff less_irrefl)
  then show ?thesis
    by (simp add: and_exp_eq_0_iff_not_bit bit_simps)
qed

lemma unat_low_bits:
  "n < 8 \<Longrightarrow> unat ((word_of_nat x :: 8 word) AND mask n) = x mod 2 ^ n"
proof -
  assume n: "n < 8"
  have "unat ((word_of_nat x :: 8 word) AND mask n) = take_bit n (take_bit 8 x)"
    by (simp add: unsigned_of_nat unsigned_take_bit_eq flip: take_bit_eq_mask)
  also have "\<dots> = take_bit n x"
    using n by (simp add: min_def)
  finally show ?thesis by (simp add: take_bit_eq_mod)
qed

lemma split_join: "take_bit k (v::nat) OR push_bit k (drop_bit k v) = v"
proof (rule bit_eqI)
  fix n
  show "bit (take_bit k v OR push_bit k (drop_bit k v)) n = bit v n"
    by (cases "n < k") (auto simp add: bit_simps)
qed

lemma cont_byte_flag: "(word_of_nat ((v AND 0x7f) OR 0x80) :: 8 word) AND 0x80 \<noteq> 0"
  using cont_bit_set [of 7 v] by (simp add: mask_eq_exp_minus_1)

lemma unat_byte: "x < 256 \<Longrightarrow> unat (word_of_nat x :: 8 word) = x"
  by (simp add: unsigned_of_nat take_bit_nat_eq_self_iff)

lemma cont_byte_value: "unat ((word_of_nat ((v AND 0x7f) OR 0x80) :: 8 word) AND 0x7f) = v mod 128"
proof -
  have "v mod 128 < 128" by simp
  then have "v mod 128 < 256" by linarith
  then have "unat (word_of_nat (v mod 128) :: 8 word) = v mod 128"
    by (rule unat_byte)
  with cont_payload [of 7 v] show ?thesis
    by (simp add: mask_eq_exp_minus_1 take_bit_eq_mod)
qed

lemma final_byte_flag: "x < 128 \<Longrightarrow> (word_of_nat x :: 8 word) AND 0x80 = 0"
  using last_bit_clear [of 7 x] by simp

lemma final_byte_value: "x < 128 \<Longrightarrow> unat ((word_of_nat x :: 8 word) AND 0x7f) = x"
  using unat_low_bits [of 7 x] by (simp add: mask_eq_exp_minus_1)

lemma group_join: "(v::nat) mod 128 OR push_bit 7 (drop_bit 7 v) = v"
  using split_join [of 7 v] by (simp add: take_bit_eq_mod)


lemma uint32_write_last: "v \<le> 0x7f \<Longrightarrow> uint32_write v = [word_of_nat v]"
  by (subst uint32_write.simps) simp

lemma uint32_write_more:
  "0x7f < v \<Longrightarrow>
   uint32_write v = word_of_nat ((v AND 0x7f) OR 0x80) # uint32_write (drop_bit 7 v)"
  by (subst uint32_write.simps) simp

lemma varint_round_trip_at:
  "0 < j \<Longrightarrow> v < 2 ^ (7 * j) \<Longrightarrow> k + j \<le> 4 \<Longrightarrow>
   varint32read k (uint32_write v @ rest) =
     Inr (push_bit (7 * k) v, k + length (uint32_write v))"
proof (induction j arbitrary: k v)
  case 0
  then show ?case by simp
next
  case (Suc j)
  from Suc.prems have k: "k < 4" by simp
  show ?case
  proof (cases "v \<le> 0x7f")
    case True
    then have small: "v < 128" by simp
    show ?thesis
      using k by (simp add: uint32_write_last [OF True] final_byte_flag [OF small] final_byte_value [OF small])
  next
    case False
    then have big: "0x7f < v" by simp
    have j: "0 < j"
    proof (rule ccontr)
      assume "\<not> 0 < j"
      with Suc.prems(2) have "v < 128" by simp
      with big show False by simp
    qed
    have "v < 2 ^ 7 * 2 ^ (7 * j)"
      using Suc.prems(2) by (simp add: power_add)
    then have less: "drop_bit 7 v < 2 ^ (7 * j)"
      by (simp add: drop_bit_eq_div less_mult_imp_div_less mult.commute)
    have kj: "Suc k + j \<le> 4"
      using Suc.prems(3) by simp
    note ih = Suc.IH [OF j less kj]
    have join: "push_bit (7 * k) (v mod 128) OR push_bit (7 * Suc k) (drop_bit 7 v) =
        push_bit (7 * k) v"
    proof -
      have "push_bit (7 * Suc k) (drop_bit 7 v) = push_bit (7 * k) (push_bit 7 (drop_bit 7 v))"
        by (simp add: push_bit_push_bit add.commute)
      then have "push_bit (7 * k) (v mod 128) OR push_bit (7 * Suc k) (drop_bit 7 v) =
          push_bit (7 * k) (v mod 128 OR push_bit 7 (drop_bit 7 v))"
        by (simp only: push_bit_or)
      then show ?thesis by (simp only: group_join)
    qed
    show ?thesis
      using k
      by (simp only: uint32_write_more [OF big] append_Cons varint32read.simps Let_def
          cont_byte_flag cont_byte_value ih if_True if_False sum.case prod.case join length_Cons) simp
  qed
qed

lemma varint_round_trip:
  "v < 2 ^ 28 \<Longrightarrow> varint32read 0 (uint32_write v @ rest) = Inr (v, length (uint32_write v))"
  using varint_round_trip_at [of 4 v 0 rest] by simp

section \<open>Evaluation lemmas\<close>

lemma spec_round_down_one: "spec_round_down (Decimal 1 0) d = 10 ^ d"
  by (simp add: spec_round_down_eq)

lemma small_exponent:
  assumes "(10::int) ^ d \<le> 2 ^ 128 - 1"
  shows "int d \<le> maxE"
proof -
  have "(10::int) ^ d < 10 ^ 40" using assms by simp
  then have "d < 40" by (rule power_less_imp_less_exp [rotated]) simp
  then show ?thesis by (simp add: maxE_def)
qed

lemma toScaled_one:
  "toScaledU64 (Fin (Decimal 1 0)) d =
     (if 10 ^ d > (2 ^ 64 - 1 :: int) then Inl IntegerOutOfRange else Inr (10 ^ d))"
  "toScaledU128 (Fin (Decimal 1 0)) d =
     (if 10 ^ d > (2 ^ 128 - 1 :: int) then Inl IntegerOutOfRange else Inr (10 ^ d))"
proof -
  let ?x = "Decimal 1 0"
  have u: "\<not> underflows ?x"
    by (rule not_underflows_eval [of 0]) (simp_all add: minE_def)
  have c: "0 < coef ?x" by simp
  have dg: "ndigits (nat \<bar>coef ?x\<bar>) \<le> 20" "ndigits (nat \<bar>coef ?x\<bar>) \<le> 40"
    using ndigits_le_iff [of 1 19] ndigits_le_iff [of 1 39] by simp_all
  show "toScaledU64 (Fin ?x) d =
     (if 10 ^ d > (2 ^ 64 - 1 :: int) then Inl IntegerOutOfRange else Inr (10 ^ d))"
  proof (cases "10 ^ d > (2 ^ 64 - 1 :: int)")
    case True
    then show ?thesis
      using scaled_out_of_range [OF c u, of "\<lparr>precision = 20, exponent = 28, bits = 64\<rparr>" d]
      by (simp add: toScaledU64_def spec_round_down_one)
  next
    case False
    then have "(10::int) ^ d \<le> 2 ^ 128 - 1" by simp
    then have dm: "int d \<le> maxE" by (rule small_exponent)
    from False show ?thesis
      using scaled_exact [OF c u dm, of "\<lparr>precision = 20, exponent = 28, bits = 64\<rparr>"]
        dg maxE_large
      by (simp add: toScaledU64_def spec_round_down_one)
  qed
  show "toScaledU128 (Fin ?x) d =
     (if 10 ^ d > (2 ^ 128 - 1 :: int) then Inl IntegerOutOfRange else Inr (10 ^ d))"
  proof (cases "10 ^ d > (2 ^ 128 - 1 :: int)")
    case True
    then show ?thesis
      using scaled_out_of_range [OF c u, of "\<lparr>precision = 40, exponent = 56, bits = 128\<rparr>" d]
      by (simp add: toScaledU128_def spec_round_down_one)
  next
    case False
    then have "(10::int) ^ d \<le> 2 ^ 128 - 1" by simp
    then have dm: "int d \<le> maxE" by (rule small_exponent)
    from False show ?thesis
      using scaled_exact [OF c u dm, of "\<lparr>precision = 40, exponent = 56, bits = 128\<rparr>"]
        dg maxE_large
      by (simp add: toScaledU128_def spec_round_down_one)
  qed
qed

lemma toScaled_zero:
  "toScaledU64 (Fin ZERO_DECIMAL) d = Inr 0" "toScaledU128 (Fin ZERO_DECIMAL) d = Inr 0"
  by (simp_all add: toScaledU64_def toScaledU128_def ZERO_DECIMAL_def scaled_zero)

lemma split_small:
  "bigIntToProtoU128 100000000 = Inr \<lparr>lo = 100000000, hi = 0\<rparr>"
  "bigIntToProtoU128 0 = Inr \<lparr>lo = 0, hi = 0\<rparr>"
  using bigIntToProtoU128_in_range [of 100000000] bigIntToProtoU128_in_range [of 0]
  by simp_all

lemma optMap_id: "optMap v (\<lambda>x. x) = v"
  by (simp add: optMap_def split: option.split)

lemma example_receive:
  "sendAction_receive (example_proto r) example_sendFn (sessionSign example_signFn) a = Inr r"
  "sendAction_receive (example_proto r) example_sendFn (walletSign example_walletSignFn) a = Inr r"
  by (simp_all add: sendAction_receive_def example_proto_def example_sendFn_def
      example_signFn_def example_walletSignFn_def sessionSign_def walletSign_def
      encodeLengthDelimited_def decodeLengthDelimited_def MAX_PAYLOAD_SIZE_def
      uint32_write_last getBytes_def slice_0_minus2_def hex_digit_def)

lemma scenario_default_action:
  "placeOrder_action 0 0 (scenario_params None) = Inr (scenario_action \<lparr>lo = 0, hi = 0\<rparr>)"
  by (simp add: placeOrder_action_def scenario_params_def scenario_action_def
      toScaled_one toScaled_zero split_small optMap_id fillModeToProtoFillMode_def)

section \<open>Properties of the place-order builder\<close>

text \<open>
  C3 (as amended). Building a PlaceOrder action with price 1, size 1, two price
  decimals and six size decimals gives the scaled price 100 and the scaled size
  1000000. Its \<open>quoteSize\<close> is the split \<open>{lo: 100000000, hi: 0}\<close> when the caller
  also supplies \<open>quoteSize = 1\<close>, and \<open>{lo: 0, hi: 0}\<close> when \<open>quoteSize\<close> is omitted,
  since an omitted \<open>quoteSize\<close> defaults to zero.
\<close>

theorem placeOrder_scenario:
  assumes "pp_price p = Some (Decimal 1 0)" and "pp_size p = Some (Decimal 1 0)"
    and "pp_priceDecimals p = 2" and "pp_sizeDecimals p = 6"
    and "fillModeToProtoFillMode (pp_fillMode p) = Inr fm"
  shows "(pp_quoteSize p = Some (Decimal 1 0) \<longrightarrow>
           placeOrder_action ts n p =
             Inr \<lparr>currentTimestamp = ts, nonce = n,
                  kind = PlaceOrder
                    \<lparr>po_sessionId = pp_sessionId p,
                     po_senderAccountId = pp_senderId p,
                     po_marketId = pp_marketId p,
                     po_side = (if pp_side p = Bid then BID else ASK),
                     po_fillMode = fm,
                     po_isReduceOnly = pp_isReduceOnly p,
                     po_price = 100,
                     po_size = 1000000,
                     po_quoteSize = \<lparr>lo = 100000000, hi = 0\<rparr>,
                     po_clientOrderId = pp_clientOrderId p,
                     po_delegatorAccountId = pp_liquidateeId p\<rparr>\<rparr>) \<and>
         (pp_quoteSize p = None \<longrightarrow>
           placeOrder_action ts n p =
             Inr \<lparr>currentTimestamp = ts, nonce = n,
                  kind = PlaceOrder
                    \<lparr>po_sessionId = pp_sessionId p,
                     po_senderAccountId = pp_senderId p,
                     po_marketId = pp_marketId p,
                     po_side = (if pp_side p = Bid then BID else ASK),
                     po_fillMode = fm,
                     po_isReduceOnly = pp_isReduceOnly p,
                     po_price = 100,
                     po_size = 1000000,
                     po_quoteSize = \<lparr>lo = 0, hi = 0\<rparr>,
                     po_clientOrderId = pp_clientOrderId p,
                     po_delegatorAccountId = pp_liquidateeId p\<rparr>\<rparr>)"
  using assms
  by (simp add: placeOrder_action_def toScaled_one toScaled_zero split_small optMap_id)

theorem placeOrder_scenario_witness:
  "pp_price (scenario_params (Some (Decimal 1 0))) = Some (Decimal 1 0) \<and>
   pp_size (scenario_params (Some (Decimal 1 0))) = Some (Decimal 1 0) \<and>
   pp_priceDecimals (scenario_params (Some (Decimal 1 0))) = 2 \<and>
   pp_sizeDecimals (scenario_params (Some (Decimal 1 0))) = 6 \<and>
   fillModeToProtoFillMode (pp_fillMode (scenario_params (Some (Decimal 1 0)))) = Inr LIMIT \<and>
   pp_quoteSize (scenario_params (Some (Decimal 1 0))) = Some (Decimal 1 0) \<and>
   placeOrder_action 0 0 (scenario_params (Some (Decimal 1 0))) =
     Inr (scenario_action \<lparr>lo = 100000000, hi = 0\<rparr>)"
proof -
  let ?p = "scenario_params (Some (Decimal 1 0))"
  have h: "pp_price ?p = Some (Decimal 1 0)" "pp_size ?p = Some (Decimal 1 0)"
    "pp_priceDecimals ?p = 2" "pp_sizeDecimals ?p = 6"
    "fillModeToProtoFillMode (pp_fillMode ?p) = Inr LIMIT"
    by (simp_all add: scenario_params_def fillModeToProtoFillMode_def)
  have q: "pp_quoteSize ?p = Some (Decimal 1 0)"
    by (simp add: scenario_params_def)
  from placeOrder_scenario [OF h, of 0 0] q
  have "placeOrder_action 0 0 ?p = Inr (scenario_action \<lparr>lo = 100000000, hi = 0\<rparr>)"
    by (simp add: scenario_params_def scenario_action_def)
  with h q show ?thesis by simp
qed

text \<open>
  The scenario as the claim states it, with no \<open>quoteSize\<close>: the split is zero, not
  \<open>{lo: 100000000, hi: 0}\<close>.
\<close>

theorem placeOrder_default_quoteSize_counterexample:
  "placeOrder_action 0 0 (scenario_params None) = Inr (scenario_action \<lparr>lo = 0, hi = 0\<rparr>) \<and>
   placeOrder_action 0 0 (scenario_params None) \<noteq>
     Inr (scenario_action \<lparr>lo = 100000000, hi = 0\<rparr>)"
  by (simp add: scenario_default_action scenario_action_def)

section \<open>Properties of receipt handling\<close>

text \<open>
  A receipt of the error case fails every one of the six submissions with the
  server's code.
\<close>

lemma sendAction_server_error:
  assumes "sendAction_receive pr sendFn sign action = Inr resp"
    and "receipt_kind resp = Some (Err code)"
  shows "sendAction pr sendFn sign action desc = Inl (ServerError desc code)"
  using assms by (simp add: sendAction_def)

lemma sendAction_other:
  assumes "sendAction_receive pr sendFn sign action = Inr resp"
    and "\<forall>code. receipt_kind resp \<noteq> Some (Err code)"
  shows "sendAction pr sendFn sign action desc = Inr resp"
  using assms by (auto simp: sendAction_def split: option.split ReceiptKind.split)

lemma server_error_every_variant:
  assumes "receipt_kind resp = Some (Err code)"
  shows
    "createSession_action ts n cs = Inr a1 \<Longrightarrow>
     sendAction_receive pr sendFn (walletSign walletSignFn) a1 = Inr resp \<Longrightarrow>
     createSessionImpl pr sendFn walletSignFn ts n cs = Inl (ServerError ''create a new session'' code)"
    "sendAction_receive pr sendFn (walletSign walletSignFn) (revokeSession_action ts n sid) = Inr resp \<Longrightarrow>
     revokeSessionImpl pr sendFn walletSignFn ts n sid = Inl (ServerError ''create a new session'' code)"
    "withdraw_action ts n wp = Inr a3 \<Longrightarrow>
     sendAction_receive pr sendFn (sessionSign signFn) a3 = Inr resp \<Longrightarrow>
     withdrawImpl pr sendFn signFn ts n wp = Inl (ServerError ''withdraw'' code)"
    "placeOrder_action ts n pp = Inr a4 \<Longrightarrow>
     sendAction_receive pr sendFn (sessionSign signFn) a4 = Inr resp \<Longrightarrow>
     placeOrderImpl pr sendFn signFn ts n pp = Inl (ServerError ''place the order'' code)"
    "sendAction_receive pr sendFn (sessionSign signFn) (cancelOrder_action ts n cp) = Inr resp \<Longrightarrow>
     cancelOrderImpl pr sendFn signFn ts n cp = Inl (ServerError ''cancel the order'' code)"
    "transfer_action ts n tp = Inr a6 \<Longrightarrow>
     sendAction_receive pr sendFn (sessionSign signFn) a6 = Inr resp \<Longrightarrow>
     transferImpl pr sendFn signFn ts n tp = Inl (ServerError ''transfer asset to other account'' code)"
  using assms
  by (simp_all add: createSessionImpl_def revokeSessionImpl_def withdrawImpl_def
      placeOrderImpl_def cancelOrderImpl_def transferImpl_def sendAction_def)

text \<open>
  \<open>createSessionImpl\<close>, \<open>placeOrderImpl\<close>, \<open>cancelOrderImpl\<close> and \<open>transferImpl\<close> fail
  with the unexpected-receipt-kind error on every other receipt that is not of their
  own result case.
\<close>

lemma unexpected_kind_checked_variants:
  assumes "\<forall>code. receipt_kind resp \<noteq> Some (Err code)"
  shows
    "createSession_action ts n cs = Inr a1 \<Longrightarrow>
     sendAction_receive pr sendFn (walletSign walletSignFn) a1 = Inr resp \<Longrightarrow>
     \<forall>sid. receipt_kind resp \<noteq> Some (CreateSessionResult sid) \<Longrightarrow>
     createSessionImpl pr sendFn walletSignFn ts n cs = Inl (unexpected_kind resp)"
    "placeOrder_action ts n pp = Inr a4 \<Longrightarrow>
     sendAction_receive pr sendFn (sessionSign signFn) a4 = Inr resp \<Longrightarrow>
     \<forall>posted. receipt_kind resp \<noteq> Some (PlaceOrderResult posted) \<Longrightarrow>
     placeOrderImpl pr sendFn signFn ts n pp = Inl (unexpected_kind resp)"
    "sendAction_receive pr sendFn (sessionSign signFn) (cancelOrder_action ts n cp) = Inr resp \<Longrightarrow>
     \<forall>oid. receipt_kind resp \<noteq> Some (CancelOrderResult oid) \<Longrightarrow>
     cancelOrderImpl pr sendFn signFn ts n cp = Inl (unexpected_kind resp)"
    "transfer_action ts n tp = Inr a6 \<Longrightarrow>
     sendAction_receive pr sendFn (sessionSign signFn) a6 = Inr resp \<Longrightarrow>
     \<forall>created acc. receipt_kind resp \<noteq> Some (Transferred created acc) \<Longrightarrow>
     transferImpl pr sendFn signFn ts n tp = Inl (unexpected_kind resp)"
  using assms
  by (auto simp: createSessionImpl_def placeOrderImpl_def cancelOrderImpl_def transferImpl_def
      sendAction_other split: option.split ReceiptKind.split)

text \<open>
  \<open>revokeSessionImpl\<close> and \<open>withdrawImpl\<close> never look at the receipt that
  \<open>sendAction\<close> returns: every receipt that is not of the error case is a success.
\<close>

lemma unchecked_variants:
  assumes "\<forall>code. receipt_kind resp \<noteq> Some (Err code)"
  shows
    "sendAction_receive pr sendFn (walletSign walletSignFn) (revokeSession_action ts n sid) = Inr resp \<Longrightarrow>
     revokeSessionImpl pr sendFn walletSignFn ts n sid = Inr ()"
    "withdraw_action ts n wp = Inr a3 \<Longrightarrow>
     sendAction_receive pr sendFn (sessionSign signFn) a3 = Inr resp \<Longrightarrow>
     withdrawImpl pr sendFn signFn ts n wp = Inr ()"
  using assms
  by (simp_all add: revokeSessionImpl_def withdrawImpl_def sendAction_other)

text \<open>
  C2. The claim asks that every action variant fails with an unexpected-receipt-kind
  error when the receipt's kind is not the variant's result. That fails for
  RevokeSession and Withdraw: answered with a receipt of the case
  \<open>placeOrderResult\<close>, both return normally, where \<open>cancelOrderImpl\<close> on the same
  receipt fails with \<open>Unexpected receipt kind placeOrderResult\<close>.
\<close>

theorem revokeSession_withdraw_ignore_receipt_kind:
  "sendAction_receive (example_proto \<lparr>receipt_kind = Some (PlaceOrderResult (Some 7))\<rparr>)
     example_sendFn (walletSign example_walletSignFn) (revokeSession_action 0 0 1) =
     Inr \<lparr>receipt_kind = Some (PlaceOrderResult (Some 7))\<rparr> \<and>
   revokeSessionImpl (example_proto \<lparr>receipt_kind = Some (PlaceOrderResult (Some 7))\<rparr>)
     example_sendFn example_walletSignFn 0 0 1 = Inr () \<and>
   withdrawImpl (example_proto \<lparr>receipt_kind = Some (PlaceOrderResult (Some 7))\<rparr>)
     example_sendFn example_signFn 0 0
     \<lparr>wp_sizeDecimals = 0, wp_sessionId = 1, wp_tokenId = 0, wp_amount = Decimal 1 0\<rparr> = Inr () \<and>
   cancelOrderImpl (example_proto \<lparr>receipt_kind = Some (PlaceOrderResult (Some 7))\<rparr>)
     example_sendFn example_signFn 0 0
     \<lparr>cp_sessionId = 1, cp_senderId = None, cp_orderId = 5, cp_liquidateeId = None\<rparr> =
     Inl (UnexpectedReceiptKind (Some ''placeOrderResult''))"
  by (simp add: revokeSessionImpl_def withdrawImpl_def cancelOrderImpl_def sendAction_def
      example_receive withdraw_action_def toScaled_one unexpected_kind_def)

text \<open>
  C10. When the receipt is a \<open>placeOrderResult\<close> whose \<open>posted\<close> field is absent,
  \<open>placeOrderImpl\<close> returns no order id (\<open>undefined\<close>) and raises no error.
\<close>

theorem placeOrder_without_posted:
  assumes "placeOrder_action ts n params = Inr action"
    and "sendAction_receive pr sendFn (sessionSign signFn) action = Inr resp"
    and "receipt_kind resp = Some (PlaceOrderResult None)"
  shows "placeOrderImpl pr sendFn signFn ts n params = Inr None"
  using assms by (simp add: placeOrderImpl_def sendAction_def)


theorem placeOrder_without_posted_witness:
  "placeOrder_action 0 0 (scenario_params None) = Inr (scenario_action \<lparr>lo = 0, hi = 0\<rparr>) \<and>
   sendAction_receive (example_proto \<lparr>receipt_kind = Some (PlaceOrderResult None)\<rparr>)
     example_sendFn (sessionSign example_signFn) (scenario_action \<lparr>lo = 0, hi = 0\<rparr>) =
     Inr \<lparr>receipt_kind = Some (PlaceOrderResult None)\<rparr> \<and>
   receipt_kind \<lparr>receipt_kind = Some (PlaceOrderResult None)\<rparr> = Some (PlaceOrderResult None) \<and>
   placeOrderImpl (example_proto \<lparr>receipt_kind = Some (PlaceOrderResult None)\<rparr>)
     example_sendFn example_signFn 0 0 (scenario_params None) = Inr None"
proof -
  let ?r = "\<lparr>receipt_kind = Some (PlaceOrderResult None)\<rparr>"
  let ?a = "scenario_action \<lparr>lo = 0, hi = 0\<rparr>"
  note a = scenario_default_action
  have recv: "sendAction_receive (example_proto ?r) example_sendFn (sessionSign example_signFn) ?a = Inr ?r"
    by (rule example_receive)
  have k: "receipt_kind ?r = Some (PlaceOrderResult None)"
    by simp
  from placeOrder_without_posted [OF a recv k] a recv show ?thesis
    by simp
qed

section \<open>Properties of the framing\<close>


lemma varint32read_pos:
  "varint32read k bs = Inr (v, pos) \<Longrightarrow> pos \<le> k + length bs"
proof (induction bs arbitrary: k v pos)
  case Nil
  then show ?case by simp
next
  case (Cons b bs)
  show ?case
  proof (cases "b AND 0x80 = 0")
    case True
    with Cons.prems show ?thesis by (auto simp: Let_def)
  next
    case False
    with Cons.prems have k: "\<not> 9 \<le> k"
      by (auto simp: Let_def split: if_splits)
    from Cons.prems False k obtain rest where
      inner: "varint32read (Suc k) bs = Inr (rest, pos)"
      by (auto simp: Let_def split: sum.splits)
    from Cons.IH [OF inner] show ?thesis by simp
  qed
qed



text \<open>
  The framing alone: when the schema coder reads the payload of a message back as
  that message, and framing the message succeeds, decoding the frame gives the
  message back.
\<close>

lemma framing_round_trip:
  assumes enc: "coder_encode message = Inr payload"
    and dec: "coder_decode payload = Inr message"
    and framed: "encodeLengthDelimited message coder_encode = Inr framed"
  shows "decodeLengthDelimited framed coder_decode = Inr message"
proof -
  from enc framed have len: "length payload \<le> MAX_PAYLOAD_SIZE"
    and fr: "framed = uint32_write (length payload) @ payload"
    by (auto simp: encodeLengthDelimited_def split: if_splits)
  from len have "length payload < 2 ^ 28"
    by (simp add: MAX_PAYLOAD_SIZE_def)
  then have rd: "varint32read 0 framed =
      Inr (length payload, length (uint32_write (length payload)))"
    unfolding fr by (rule varint_round_trip)
  show ?thesis
    using len dec by (simp add: decodeLengthDelimited_def rd) (simp add: fr)
qed


section \<open>Properties of the schema coder\<close>

lemma varint_read_write: "varint_read (varint v @ rest) = Some (v, rest)"
  unfolding varint_def
proof (induction v rule: uint32_write.induct)
  case (1 v)
  show ?case
  proof (cases "v \<le> 0x7f")
    case True
    then have small: "v < 128" and byte: "v < 256" by simp_all
    show ?thesis
      by (simp add: uint32_write_last [OF True] final_byte_flag [OF small] unat_byte [OF byte])
  next
    case False
    then have big: "0x7f < v" by simp
    note ih = "1.IH" [OF big]
    have join: "v mod 128 + 128 * drop_bit 7 v = v"
      by (simp add: drop_bit_eq_div)
    have "varint_read (uint32_write v @ rest) =
        Some (unat ((word_of_nat ((v AND 0x7f) OR 0x80) :: byte) AND 0x7f) + 128 * drop_bit 7 v,
          rest)"
      by (simp only: uint32_write_more [OF big] append_Cons varint_read.simps cont_byte_flag
          if_False ih option.case prod.case)
    then show ?thesis
      by (simp only: cont_byte_value join)
  qed
qed

lemma varint_nonempty: "varint v \<noteq> []"
  unfolding varint_def by (subst uint32_write.simps) simp

lemma put_field_nonempty: "put_field f \<noteq> []"
  by (cases f rule: put_field.cases) (simp_all add: varint_nonempty)

lemma get_fields_Suc:
  "xs \<noteq> [] \<Longrightarrow> get_fields (Suc fuel) xs =
     (case varint_read xs of
        None \<Rightarrow> None
      | Some (tag, r1) \<Rightarrow>
          if tag mod 8 = 0 then
            (case varint_read r1 of
               None \<Rightarrow> None
             | Some (v, r2) \<Rightarrow> map_option ((#) (tag div 8, Varint v)) (get_fields fuel r2))
          else if tag mod 8 = 2 then
            (case varint_read r1 of
               None \<Rightarrow> None
             | Some (len, r2) \<Rightarrow>
                 if length r2 < len then None
                 else map_option ((#) (tag div 8, LengthDelimited (take len r2)))
                        (get_fields fuel (drop len r2)))
          else None)"
  by (cases xs) simp_all

lemma get_put_field:
  "get_fields (Suc fuel) (put_field f @ rest) = map_option ((#) f) (get_fields fuel rest)"
proof (cases f rule: put_field.cases)
  case (1 n v)
  have ne: "put_field f @ rest \<noteq> []" by (simp add: put_field_nonempty)
  show ?thesis
    unfolding get_fields_Suc [OF ne] using 1
    by (simp add: varint_read_write)
next
  case (2 n bs)
  have ne: "put_field f @ rest \<noteq> []" by (simp add: put_field_nonempty)
  have m: "Suc (Suc (n * 8)) mod 8 = 2" "Suc (Suc (n * 8)) div 8 = n" by presburger+
  show ?thesis
    unfolding get_fields_Suc [OF ne] using 2
    by (simp add: varint_read_write m)
qed

lemma get_put_fields:
  "length fs \<le> fuel \<Longrightarrow> get_fields fuel (put_fields fs) = Some fs"
proof (induction fs arbitrary: fuel)
  case Nil
  then show ?case by (simp add: put_fields_def)
next
  case (Cons f fs)
  then obtain m where fuel: "fuel = Suc m" and le: "length fs \<le> m"
    by (cases fuel) simp_all
  have "put_fields (f # fs) = put_field f @ put_fields fs"
    by (simp add: put_fields_def)
  then show ?case
    by (simp add: fuel get_put_field Cons.IH [OF le])
qed

lemma length_put_fields: "length fs \<le> length (put_fields fs)"
proof (induction fs)
  case Nil
  then show ?case by simp
next
  case (Cons f fs)
  have e: "length (put_fields (f # fs)) = length (put_field f) + length (put_fields fs)"
    by (simp add: put_fields_def)
  have "1 \<le> length (put_field f)"
    using put_field_nonempty [of f] by (cases "put_field f") simp_all
  with Cons show ?case
    unfolding e length_Cons by linarith
qed

lemma parse_put_fields: "parse_fields (put_fields fs) = Some fs"
  unfolding parse_fields_def by (rule get_put_fields) (rule length_put_fields)

lemmas field_defs = uint_field_def opt_uint_field_def bytes_field_def message_field_def
  opt_field_def

lemma U128_round: "U128_valid u \<Longrightarrow> U128_of_fields (U128_fields u) = u"
  by (cases u) (simp add: U128_valid_def U128_fields_def U128_of_fields_def u64_def field_defs)

lemma CreateSession_round:
  "CreateSession_valid m \<Longrightarrow> CreateSession_of_fields (CreateSession_fields m) = m"
  by (cases m)
    (simp add: CreateSession_valid_def CreateSession_fields_def CreateSession_of_fields_def
      u64_def field_defs)

lemma RevokeSession_round:
  "u64 s \<Longrightarrow> RevokeSession_of_fields (RevokeSession_fields s) = s"
  by (simp add: RevokeSession_fields_def RevokeSession_of_fields_def u64_def field_defs)

lemma Withdraw_round: "Withdraw_valid m \<Longrightarrow> Withdraw_of_fields (Withdraw_fields m) = m"
  by (cases m)
    (simp add: Withdraw_valid_def Withdraw_fields_def Withdraw_of_fields_def u64_def field_defs)

lemma CancelOrderById_round:
  "CancelOrderById_valid m \<Longrightarrow> CancelOrderById_of_fields (CancelOrderById_fields m) = m"
  by (cases m)
    (simp add: CancelOrderById_valid_def CancelOrderById_fields_def
      CancelOrderById_of_fields_def u64_def field_defs split: option.split)

lemma Transfer_round: "Transfer_valid m \<Longrightarrow> Transfer_of_fields (Transfer_fields m) = m"
  by (cases m)
    (simp add: Transfer_valid_def Transfer_fields_def Transfer_of_fields_def u64_def field_defs
      split: option.split)

lemma Side_round: "Side_of_code (Side_code s) = Some s"
  by (cases s) (simp_all add: Side_code_def Side_of_code_def)

lemma FillMode_round: "FillMode_of_code (FillMode_code m) = Some m"
  by (cases m) (simp_all add: FillMode_code_def FillMode_of_code_def)

lemma PlaceOrder_round:
  "PlaceOrder_valid m \<Longrightarrow> PlaceOrder_of_fields (PlaceOrder_fields m) = Some m"
  by (cases m)
    (auto simp: PlaceOrder_valid_def PlaceOrder_fields_def PlaceOrder_of_fields_def u64_def
      opt_u64_def field_defs Side_round FillMode_round parse_put_fields U128_round
      split: option.splits)

lemma field_of_kind: "n < 3 \<Longrightarrow> field_of n [kind_field k] = None"
  by (cases k) (simp_all add: kind_field_def)

lemma Action_fields_round:
  "Action_valid a \<Longrightarrow> Action_of_fields (Action_fields a) = Some a"
proof -
  assume v: "Action_valid a"
  then have ts: "0 \<le> currentTimestamp a" and k: "kind_valid (kind a)"
    by (simp_all add: Action_valid_def u64_def)
  have "kind_of_fields (Action_fields a) = Some (kind a)"
    using k
    by (cases "kind a")
      (simp_all add: Action_fields_def kind_of_fields_def kind_field_def kind_valid_def
        parse_put_fields CreateSession_round RevokeSession_round Withdraw_round
        PlaceOrder_round CancelOrderById_round Transfer_round)
  then show ?thesis
    using ts
    by (cases a)
      (simp add: Action_of_fields_def, simp add: Action_fields_def field_defs field_of_kind)
qed

lemma Action_model_round:
  "Action_encode_model a = Inr payload \<Longrightarrow> Action_decode_model payload = Inr a"
  by (auto simp: Action_encode_model_def Action_decode_model_def parse_put_fields
      Action_fields_round split: if_splits)

text \<open>
  C5. For every action message, of each of the six variants and whatever its optional
  fields, whose length-delimited encoding succeeds, decoding that encoding gives the
  action back, structurally equal to the original, with the schema coder of actions
  as modelled above.
\<close>

theorem action_round_trip:
  assumes "encodeLengthDelimited action Action_encode_model = Inr framed"
  shows "decodeLengthDelimited framed Action_decode_model = Inr action"
proof -
  from assms obtain payload where enc: "Action_encode_model action = Inr payload"
    by (auto simp: encodeLengthDelimited_def split: sum.splits)
  from Action_model_round [OF enc] have dec: "Action_decode_model payload = Inr action" .
  from enc dec assms show ?thesis
    by (rule framing_round_trip)
qed

lemma varint_small: "v \<le> 0x7f \<Longrightarrow> varint v = [word_of_nat v]"
  by (simp add: varint_def uint32_write_last)

lemma varint_350: "varint 350 = [222, 2]"
  by (simp add: varint_def uint32_write_more uint32_write_last drop_bit_eq_div)

lemma test_action_frame:
  "encodeLengthDelimited test_action Action_encode_model = Inr test_frame"
  by (simp add: encodeLengthDelimited_def Action_encode_model_def test_action_def
      test_frame_def Action_valid_def kind_valid_def PlaceOrder_valid_def U128_valid_def
      u64_def u32_def opt_u32_def opt_u64_def Action_fields_def kind_field_def
      PlaceOrder_fields_def U128_fields_def opt_field_def put_fields_def Side_code_def
      FillMode_code_def varint_small varint_350 MAX_PAYLOAD_SIZE_def uint32_write_last)

theorem action_round_trip_witness:
  "encodeLengthDelimited test_action Action_encode_model = Inr test_frame \<and>
   decodeLengthDelimited test_frame Action_decode_model = Inr test_action"
  using action_round_trip [OF test_action_frame] test_action_frame by simp

section \<open>Properties of the signing schemes\<close>

lemma hex_pairs_Nil: "hex_pairs cs = Some [] \<Longrightarrow> cs = []"
  by (cases cs rule: hex_pairs.cases) (auto split: option.splits)

lemma hex_pairs_butlast:
  "hex_pairs cs = Some bs \<Longrightarrow> bs \<noteq> [] \<Longrightarrow>
   hex_pairs (take (length cs - 2) cs) = Some (butlast bs)"
proof (induction cs arbitrary: bs rule: hex_pairs.induct)
  case 1
  then show ?case by simp
next
  case (2 c)
  then show ?case by simp
next
  case (3 c d cs)
  from "3.prems"(1) obtain h l bs' where
    h: "hex_digit c = Some h" and l: "hex_digit d = Some l"
    and rest: "hex_pairs cs = Some bs'" and bs: "bs = word_of_nat (16 * h + l) # bs'"
    by (auto split: option.splits)
  show ?case
  proof (cases "bs' = []")
    case True
    with rest have "cs = []" by (simp add: hex_pairs_Nil)
    with True bs show ?thesis by simp
  next
    case False
    with rest have "cs \<noteq> []" by auto
    then have "2 \<le> length cs"
      using rest by (cases cs rule: hex_pairs.cases) auto
    then have "length (c # d # cs) - 2 = Suc (Suc (length cs - 2))"
      by simp
    then have tk: "take (length (c # d # cs) - 2) (c # d # cs) = c # d # take (length cs - 2) cs"
      by (simp only: take_Suc_Cons)
    from "3.IH" [OF h l rest False] have "hex_pairs (take (length cs - 2) cs) = Some (butlast bs')" .
    with h l False bs show ?thesis
      unfolding tk by simp
  qed
qed

lemma getBytes_slice:
  assumes "getBytes signature = Inr sig_bytes" and "sig_bytes \<noteq> []"
  shows "getBytes (slice_0_minus2 signature) = Inr (butlast sig_bytes)"
proof -
  from assms(1) obtain z x digits where
    s: "signature = z # x # digits" and z: "z = CHR ''0''" and x: "x = CHR ''x'' \<or> x = CHR ''X''"
    and hp: "hex_pairs digits = Some sig_bytes"
    by (auto simp: getBytes_def split: list.splits if_splits option.splits)
  from hp assms(2) have "digits \<noteq> []" by auto
  then have "2 \<le> length digits"
    using hp by (cases digits rule: hex_pairs.cases) auto
  then have "length (z # x # digits) - 2 = Suc (Suc (length digits - 2))"
    by simp
  then have tk: "slice_0_minus2 signature = z # x # take (length digits - 2) digits"
    unfolding slice_0_minus2_def s by (simp only: take_Suc_Cons)
  from hex_pairs_butlast [OF hp assms(2)] z x show ?thesis
    unfolding tk by (auto simp: getBytes_def)
qed

text \<open>
  C8. For every encoded action: when the wallet capability returns a signature (the
  hexadecimal text of a non-empty byte string), \<open>walletSign\<close> gives the action bytes
  followed by the signature without its last byte; when the session capability
  returns a signature, \<open>sessionSign\<close> gives the action bytes followed by the whole
  signature.
\<close>

theorem signing_schemes:
  "(walletSignFn message = Inr signature \<and> getBytes signature = Inr sig_bytes \<and> sig_bytes \<noteq> []
      \<longrightarrow> walletSign walletSignFn message = Inr (message @ butlast sig_bytes)) \<and>
   (signFn message = Inr session_signature
      \<longrightarrow> sessionSign signFn message = Inr (message @ session_signature))"
  by (simp add: walletSign_def sessionSign_def getBytes_slice)

theorem signing_schemes_witness:
  "example_walletSignFn [1, 2, 3] = Inr ''0x0a0B1c'' \<and>
   getBytes ''0x0a0B1c'' = Inr [0x0a, 0x0b, 0x1c] \<and>
   [0x0a, 0x0b, 0x1c :: byte] \<noteq> [] \<and>
   walletSign example_walletSignFn [1, 2, 3] = Inr [1, 2, 3, 0x0a, 0x0b] \<and>
   example_signFn [1, 2, 3] = Inr [9, 9] \<and>
   sessionSign example_signFn [1, 2, 3] = Inr [1, 2, 3, 9, 9]"
proof -
  have w: "example_walletSignFn [1, 2, 3] = Inr ''0x0a0B1c''"
    by (simp add: example_walletSignFn_def)
  have g: "getBytes ''0x0a0B1c'' = Inr [0x0a, 0x0b, 0x1c]"
    by (simp add: getBytes_def hex_digit_def)
  have s: "example_signFn [1, 2, 3] = Inr [9, 9]"
    by (simp add: example_signFn_def)
  from signing_schemes [of example_walletSignFn "[1, 2, 3]" "''0x0a0B1c''" "[0x0a, 0x0b, 0x1c]"
      example_signFn "[9, 9]"] w g s
  show ?thesis by simp
qed

end
